theory Spec2Isabelle
  imports Main "HOL-Library.Word" "HOL-Library.Stream"
begin

unbundle bit_operations_syntax

section \<open>Python values\<close>

text \<open>
  A Python \<^verbatim>\<open>str\<close> is a sequence of Unicode code points, so it is modelled as a list
  of natural numbers (\<open>len\<close> counts code points, and a non-ASCII numeral such as
  U+00B2 is one element).  \<open>str\<close> embeds an ASCII literal.  Python \<^verbatim>\<open>bytes\<close> are
  lists of 8-bit words, Python integers are \<open>int\<close>.
\<close>

type_synonym pystr = "nat list"
type_synonym byte = "8 word"
type_synonym bytes = "byte list"

definition str :: "string \<Rightarrow> pystr" where
  "str s = map of_char s"

text \<open>
  The exceptions that can leave \<^verbatim>\<open>get_totp_code\<close>.  \<^verbatim>\<open>binascii.Error\<close> is a subclass
  of \<^verbatim>\<open>ValueError\<close> in Python; it is kept apart here because it is what
  \<^verbatim>\<open>base64.b32decode\<close> raises for an undecodable secret.
\<close>

datatype error =
    ValueError pystr
  | BinasciiError pystr
  | OverflowError pystr
  | ZeroDivisionError pystr
  | IndexError pystr

section \<open>urllib.parse\<close>

subsection \<open>urlparse\<close>

text \<open>
  \<^verbatim>\<open>urllib.parse.urlparse\<close> (CPython 3.11): leading C0 control characters and spaces are
  stripped, tab, CR and LF are removed, a scheme is split off at the first colon when
  the text before it starts with an ASCII letter and consists of scheme characters, the
  network location after \<^verbatim>\<open>//\<close> runs to the first of \<^verbatim>\<open>/ ? #\<close>, then the fragment and
  the query are split off, and for the schemes of \<^verbatim>\<open>uses_params\<close> the parameters after
  the last segment of the path.  A network location with one bracket but not the other
  raises \<^verbatim>\<open>ValueError\<close>.

  urllib validates the network location further, with two functions that return
  nothing and can only raise \<^verbatim>\<open>ValueError\<close>: \<^verbatim>\<open>_check_bracketed_host\<close>, called on the
  text between the brackets when both brackets occur, rests on the modules \<^verbatim>\<open>re\<close> and
  \<^verbatim>\<open>ipaddress\<close>; \<^verbatim>\<open>_checknetloc\<close> returns at once for an empty or ASCII network
  location and otherwise compares it with its NFKC normal form, which rests on the
  tables of \<^verbatim>\<open>unicodedata\<close>.  The two are parameters of the model: each maps the text it
  is called on to the message of the \<^verbatim>\<open>ValueError\<close> it raises, \<open>None\<close> when it returns;
  \<open>checknetloc\<close> stands for the part of \<^verbatim>\<open>_checknetloc\<close> after its first test.
  Everything proved below holds whatever the two functions do.
\<close>

record netloc_checks =
  check_bracketed_host :: "pystr \<Rightarrow> pystr option"
  checknetloc :: "pystr \<Rightarrow> pystr option"

record ParseResult =
  scheme :: pystr
  netloc :: pystr
  path :: pystr
  params :: pystr
  query :: pystr
  fragment :: pystr

definition is_ascii_alpha :: "nat \<Rightarrow> bool" where
  "is_ascii_alpha c = ((65 \<le> c \<and> c \<le> 90) \<or> (97 \<le> c \<and> c \<le> 122))"

definition is_scheme_char :: "nat \<Rightarrow> bool" where
  "is_scheme_char c =
     (is_ascii_alpha c \<or> (48 \<le> c \<and> c \<le> 57) \<or> c = 43 \<or> c = 45 \<or> c = 46)"

definition ascii_lower :: "nat \<Rightarrow> nat" where
  "ascii_lower c = (if 65 \<le> c \<and> c \<le> 90 then c + 32 else c)"

definition ascii_upper :: "nat \<Rightarrow> nat" where
  "ascii_upper c = (if 97 \<le> c \<and> c \<le> 122 then c - 32 else c)"

text \<open>\<^verbatim>\<open>s.partition(sep)\<close> for a one-character separator: the text before the first
  separator, whether there is one, and the text after it.\<close>

fun partition_at :: "nat \<Rightarrow> pystr \<Rightarrow> pystr \<times> bool \<times> pystr" where
  "partition_at sep [] = ([], False, [])"
| "partition_at sep (c # cs) =
     (if c = sep then ([], True, cs)
      else (case partition_at sep cs of (a, found, b) \<Rightarrow> (c # a, found, b)))"

definition split_scheme :: "pystr \<Rightarrow> pystr \<times> pystr" where
  "split_scheme url =
     (case partition_at 58 url of (pre, found, rest) \<Rightarrow>
        if found \<and> pre \<noteq> [] \<and> is_ascii_alpha (hd pre) \<and> list_all is_scheme_char pre
        then (map ascii_lower pre, rest)
        else ([], url))"

definition is_netloc_delim :: "nat \<Rightarrow> bool" where
  "is_netloc_delim c = (c = 47 \<or> c = 63 \<or> c = 35)"

text \<open>\<^verbatim>\<open>netloc.partition('[')[2].partition(']')[0]\<close>.\<close>

definition bracketed_host :: "pystr \<Rightarrow> pystr" where
  "bracketed_host nl =
     (case partition_at 91 nl of (_, _, rest) \<Rightarrow>
      case partition_at 93 rest of (host, _, _) \<Rightarrow> host)"

definition uses_params :: "pystr list" where
  "uses_params =
     [[], str ''ftp'', str ''hdl'', str ''prospero'', str ''http'', str ''imap'',
      str ''https'', str ''shttp'', str ''rtsp'', str ''rtspu'', str ''sip'', str ''sips'',
      str ''mms'', str ''sftp'', str ''tel'']"

text \<open>
  \<^verbatim>\<open>_splitparams\<close>, called on a path that contains a semicolon: the path is cut at the
  first semicolon that is not before the last slash, if there is one.
\<close>

definition splitparams :: "pystr \<Rightarrow> pystr \<times> pystr" where
  "splitparams url =
     (if 47 \<in> set url then
        (let pre = rev (tl (dropWhile (\<lambda>c. c \<noteq> 47) (rev url)));
             post = 47 # rev (takeWhile (\<lambda>c. c \<noteq> 47) (rev url))
         in case partition_at 59 post of (a, found, b) \<Rightarrow>
              if found then (pre @ a, b) else (url, []))
      else (case partition_at 59 url of (a, _, b) \<Rightarrow> (a, b)))"

definition urlparse :: "netloc_checks \<Rightarrow> pystr \<Rightarrow> error + ParseResult" where
  "urlparse lib url0 =
     (let url1 = filter (\<lambda>c. c \<noteq> 9 \<and> c \<noteq> 13 \<and> c \<noteq> 10) (dropWhile (\<lambda>c. c \<le> 32) url0);
          (sch, url2) = split_scheme url1;
          (nl, url3) = (if take 2 url2 = [47, 47]
                        then (takeWhile (\<lambda>c. \<not> is_netloc_delim c) (drop 2 url2),
                              dropWhile (\<lambda>c. \<not> is_netloc_delim c) (drop 2 url2))
                        else ([], url2))
      in if (91 \<in> set nl \<and> 93 \<notin> set nl) \<or> (93 \<in> set nl \<and> 91 \<notin> set nl)
         then Inl (ValueError (str ''Invalid IPv6 URL''))
         else
           (case (if 91 \<in> set nl \<and> 93 \<in> set nl
                  then check_bracketed_host lib (bracketed_host nl) else None) of
              Some msg \<Rightarrow> Inl (ValueError msg)
            | None \<Rightarrow>
           (case partition_at 35 url3 of (url4, _, frag) \<Rightarrow>
            case partition_at 63 url4 of (url5, _, qry) \<Rightarrow>
           (case (if nl = [] \<or> list_all (\<lambda>c. c < 128) nl then None else checknetloc lib nl) of
              Some msg \<Rightarrow> Inl (ValueError msg)
            | None \<Rightarrow>
           (case (if sch \<in> set uses_params \<and> 59 \<in> set url5 then splitparams url5
                  else (url5, [])) of
              (pth, prm) \<Rightarrow>
                Inr \<lparr>scheme = sch, netloc = nl, path = pth, params = prm, query = qry,
                     fragment = frag\<rparr>)))))"

subsection \<open>unquote\<close>

text \<open>
  \<^verbatim>\<open>unquote_to_bytes\<close> on an ASCII run: \<^verbatim>\<open>%XX\<close> with two hexadecimal digits becomes
  the byte, any other \<^verbatim>\<open>%\<close> stays.
\<close>

definition hex_value :: "nat \<Rightarrow> nat option" where
  "hex_value c =
     (if 48 \<le> c \<and> c \<le> 57 then Some (c - 48)
      else if 65 \<le> c \<and> c \<le> 70 then Some (c - 55)
      else if 97 \<le> c \<and> c \<le> 102 then Some (c - 87)
      else None)"

fun unquote_to_bytes :: "pystr \<Rightarrow> nat list" where
  "unquote_to_bytes (c # h1 # h2 # r) =
     (if c = 37 \<and> hex_value h1 \<noteq> None \<and> hex_value h2 \<noteq> None
      then (16 * the (hex_value h1) + the (hex_value h2)) # unquote_to_bytes r
      else c # unquote_to_bytes (h1 # h2 # r))"
| "unquote_to_bytes (c # cs) = c # unquote_to_bytes cs"
| "unquote_to_bytes [] = []"

text \<open>
  \<^verbatim>\<open>bytes.decode('utf-8', 'replace')\<close>, as a byte-at-a-time decoder.  \<open>Need acc n lo hi\<close>
  is the state inside a multi-byte sequence: \<open>acc\<close> holds the bits read so far, \<open>n\<close>
  more bytes are due and the next one must lie in \<open>[lo, hi]\<close>.  A well-formed sequence
  gives its code point; an ill-formed one gives U+FFFD for its maximal well-formed
  prefix (at least one byte), and decoding resumes at the offending byte.
\<close>

datatype utf8_state = Start | Need nat nat nat nat

definition start_step :: "nat \<Rightarrow> pystr \<times> utf8_state" where
  "start_step b =
     (if b < 128 then ([b], Start)
      else if 194 \<le> b \<and> b \<le> 223 then ([], Need (b - 192) 1 128 191)
      else if 224 \<le> b \<and> b \<le> 239 then
        ([], Need (b - 224) 2 (if b = 224 then 160 else 128) (if b = 237 then 159 else 191))
      else if 240 \<le> b \<and> b \<le> 244 then
        ([], Need (b - 240) 3 (if b = 240 then 144 else 128) (if b = 244 then 143 else 191))
      else ([65533], Start))"

fun utf8_step :: "utf8_state \<Rightarrow> nat \<Rightarrow> pystr \<times> utf8_state" where
  "utf8_step Start b = start_step b"
| "utf8_step (Need acc n lo hi) b =
     (if lo \<le> b \<and> b \<le> hi then
        (if n = 1 then ([acc * 64 + (b - 128)], Start)
         else ([], Need (acc * 64 + (b - 128)) (n - 1) 128 191))
      else (65533 # fst (start_step b), snd (start_step b)))"

fun utf8_run :: "utf8_state \<Rightarrow> nat list \<Rightarrow> pystr" where
  "utf8_run st [] = (if st = Start then [] else [65533])"
| "utf8_run st (b # bs) = fst (utf8_step st b) @ utf8_run (snd (utf8_step st b)) bs"

definition utf8_decode :: "nat list \<Rightarrow> pystr" where
  "utf8_decode bs = utf8_run Start bs"

text \<open>
  \<^verbatim>\<open>unquote\<close>: every maximal run of ASCII characters is percent-decoded to bytes and
  decoded as UTF-8; non-ASCII characters are kept.  \<open>run\<close> is the current ASCII run,
  reversed.
\<close>

fun unquote_runs :: "pystr \<Rightarrow> pystr \<Rightarrow> pystr" where
  "unquote_runs run [] = utf8_decode (unquote_to_bytes (rev run))"
| "unquote_runs run (c # cs) =
     (if c < 128 then unquote_runs (c # run) cs
      else utf8_decode (unquote_to_bytes (rev run)) @ c # unquote_runs [] cs)"

definition unquote :: "pystr \<Rightarrow> pystr" where
  "unquote s = unquote_runs [] s"

definition unquote_plus :: "pystr \<Rightarrow> pystr" where
  "unquote_plus s = unquote (map (\<lambda>c. if c = 43 then 32 else c) s)"

subsection \<open>parse_qsl\<close>

text \<open>\<^verbatim>\<open>s.split(sep)\<close> for a one-character separator.\<close>

fun split_on :: "nat \<Rightarrow> pystr \<Rightarrow> pystr list" where
  "split_on sep [] = [[]]"
| "split_on sep (c # cs) =
     (if c = sep then [] # split_on sep cs
      else (case split_on sep cs of
              w # ws \<Rightarrow> (c # w) # ws
            | [] \<Rightarrow> [[c]]))"

text \<open>
  \<^verbatim>\<open>parse_qsl(qs)\<close> with its defaults (\<^verbatim>\<open>keep_blank_values=False\<close>,
  \<^verbatim>\<open>strict_parsing=False\<close>, separator \<^verbatim>\<open>&\<close>): empty fields and fields whose value is
  empty are dropped.  (Interpreters older than 3.9.2 also split at semicolons.)
\<close>

fun parse_fields :: "pystr list \<Rightarrow> (pystr \<times> pystr) list" where
  "parse_fields [] = []"
| "parse_fields (name_value # rest) =
     (if name_value \<noteq> [] then
        (case partition_at 61 name_value of (name, has_eq, val) \<Rightarrow>
           if val \<noteq> [] then (unquote_plus name, unquote_plus val) # parse_fields rest
           else parse_fields rest)
      else parse_fields rest)"

definition parse_qsl :: "pystr \<Rightarrow> (pystr \<times> pystr) list" where
  "parse_qsl qs = (if qs = [] then [] else parse_fields (split_on 38 qs))"

section \<open>str methods\<close>

text \<open>
  \<^verbatim>\<open>str.isnumeric\<close>, \<^verbatim>\<open>int\<close> and \<^verbatim>\<open>str.upper\<close> read the Unicode Character Database.
  The tables are those of Unicode 14.0 (CPython 3.11), as sorted ranges of code points:
  \<open>numeric_ranges\<close> are the characters with a numeric value (Numeric_Type Decimal, Digit
  or Numeric), \<open>decimal_ranges\<close> the decimal digits (each range is made of runs of ten
  digits starting at a zero), \<open>upper_ranges\<close> the characters whose uppercase is one
  character, as \<open>(first, last, step, uppercase of first)\<close>, and \<open>upper_special\<close> those
  whose uppercase is several characters.
\<close>

definition numeric_ranges :: "(nat \<times> nat) list" where
  "numeric_ranges =
    [(48, 57), (178, 179), (185, 185), (188, 190), (1632, 1641), (1776, 1785),
     (1984, 1993), (2406, 2415), (2534, 2543), (2548, 2553), (2662, 2671), (2790, 2799),
     (2918, 2927), (2930, 2935), (3046, 3058), (3174, 3183), (3192, 3198), (3302, 3311),
     (3416, 3422), (3430, 3448), (3558, 3567), (3664, 3673), (3792, 3801), (3872, 3891),
     (4160, 4169), (4240, 4249), (4969, 4988), (5870, 5872), (6112, 6121), (6128, 6137),
     (6160, 6169), (6470, 6479), (6608, 6618), (6784, 6793), (6800, 6809), (6992, 7001),
     (7088, 7097), (7232, 7241), (7248, 7257), (8304, 8304), (8308, 8313), (8320, 8329),
     (8528, 8578), (8581, 8585), (9312, 9371), (9450, 9471), (10102, 10131), (11517, 11517),
     (12295, 12295), (12321, 12329), (12344, 12346), (12690, 12693), (12832, 12841), (12872, 12879),
     (12881, 12895), (12928, 12937), (12977, 12991), (13317, 13317), (13443, 13443), (14378, 14378),
     (15181, 15181), (19968, 19968), (19971, 19971), (19975, 19975), (19977, 19977), (20061, 20061),
     (20108, 20108), (20116, 20116), (20118, 20118), (20159, 20160), (20191, 20191), (20200, 20200),
     (20237, 20237), (20336, 20336), (20740, 20740), (20806, 20806), (20841, 20841), (20843, 20843),
     (20845, 20845), (21313, 21313), (21315, 21317), (21324, 21324), (21441, 21444), (22235, 22235),
     (22769, 22769), (22777, 22777), (24186, 24186), (24318, 24319), (24332, 24334), (24336, 24336),
     (25342, 25342), (25420, 25420), (26578, 26578), (28422, 28422), (29590, 29590), (30334, 30334),
     (32902, 32902), (33836, 33836), (36014, 36014), (36019, 36019), (36144, 36144), (38433, 38433),
     (38470, 38470), (38476, 38476), (38520, 38520), (38646, 38646), (42528, 42537), (42726, 42735),
     (43056, 43061), (43216, 43225), (43264, 43273), (43472, 43481), (43504, 43513), (43600, 43609),
     (44016, 44025), (63851, 63851), (63859, 63859), (63864, 63864), (63922, 63922), (63953, 63953),
     (63955, 63955), (63997, 63997), (65296, 65305), (65799, 65843), (65856, 65912), (65930, 65931),
     (66273, 66299), (66336, 66339), (66369, 66369), (66378, 66378), (66513, 66517), (66720, 66729),
     (67672, 67679), (67705, 67711), (67751, 67759), (67835, 67839), (67862, 67867), (68028, 68029),
     (68032, 68047), (68050, 68095), (68160, 68168), (68221, 68222), (68253, 68255), (68331, 68335),
     (68440, 68447), (68472, 68479), (68521, 68527), (68858, 68863), (68912, 68921), (69216, 69246),
     (69405, 69414), (69457, 69460), (69573, 69579), (69714, 69743), (69872, 69881), (69942, 69951),
     (70096, 70105), (70113, 70132), (70384, 70393), (70736, 70745), (70864, 70873), (71248, 71257),
     (71360, 71369), (71472, 71483), (71904, 71922), (72016, 72025), (72784, 72812), (73040, 73049),
     (73120, 73129), (73664, 73684), (74752, 74862), (92768, 92777), (92864, 92873), (93008, 93017),
     (93019, 93025), (93824, 93846), (119520, 119539), (119648, 119672), (120782, 120831), (123200, 123209),
     (123632, 123641), (125127, 125135), (125264, 125273), (126065, 126123), (126125, 126127), (126129, 126132),
     (126209, 126253), (126255, 126269), (127232, 127244), (130032, 130041), (131073, 131073), (131172, 131172),
     (131298, 131298), (131361, 131361), (133418, 133418), (133507, 133507), (133516, 133516), (133532, 133532),
     (133866, 133866), (133885, 133885), (133913, 133913), (140176, 140176), (141720, 141720), (146203, 146203),
     (156269, 156269), (194704, 194704)]"

definition decimal_ranges :: "(nat \<times> nat) list" where
  "decimal_ranges =
    [(48, 57), (1632, 1641), (1776, 1785), (1984, 1993), (2406, 2415), (2534, 2543),
     (2662, 2671), (2790, 2799), (2918, 2927), (3046, 3055), (3174, 3183), (3302, 3311),
     (3430, 3439), (3558, 3567), (3664, 3673), (3792, 3801), (3872, 3881), (4160, 4169),
     (4240, 4249), (6112, 6121), (6160, 6169), (6470, 6479), (6608, 6617), (6784, 6793),
     (6800, 6809), (6992, 7001), (7088, 7097), (7232, 7241), (7248, 7257), (42528, 42537),
     (43216, 43225), (43264, 43273), (43472, 43481), (43504, 43513), (43600, 43609), (44016, 44025),
     (65296, 65305), (66720, 66729), (68912, 68921), (69734, 69743), (69872, 69881), (69942, 69951),
     (70096, 70105), (70384, 70393), (70736, 70745), (70864, 70873), (71248, 71257), (71360, 71369),
     (71472, 71481), (71904, 71913), (72016, 72025), (72784, 72793), (73040, 73049), (73120, 73129),
     (92768, 92777), (92864, 92873), (93008, 93017), (120782, 120831), (123200, 123209), (123632, 123641),
     (125264, 125273), (130032, 130041)]"

definition upper_ranges :: "(nat \<times> nat \<times> nat \<times> nat) list" where
  "upper_ranges =
    [(97, 122, 1, 65), (181, 181, 1, 924), (224, 246, 1, 192), (248, 254, 1, 216),
     (255, 255, 1, 376), (257, 303, 2, 256), (305, 305, 1, 73), (307, 311, 2, 306),
     (314, 328, 2, 313), (331, 375, 2, 330), (378, 382, 2, 377), (383, 383, 1, 83),
     (384, 384, 1, 579), (387, 389, 2, 386), (392, 392, 1, 391), (396, 396, 1, 395),
     (402, 402, 1, 401), (405, 405, 1, 502), (409, 409, 1, 408), (410, 410, 1, 573),
     (414, 414, 1, 544), (417, 421, 2, 416), (424, 424, 1, 423), (429, 429, 1, 428),
     (432, 432, 1, 431), (436, 438, 2, 435), (441, 441, 1, 440), (445, 445, 1, 444),
     (447, 447, 1, 503), (453, 453, 1, 452), (454, 454, 1, 452), (456, 456, 1, 455),
     (457, 457, 1, 455), (459, 459, 1, 458), (460, 460, 1, 458), (462, 476, 2, 461),
     (477, 477, 1, 398), (479, 495, 2, 478), (498, 498, 1, 497), (499, 499, 1, 497),
     (501, 501, 1, 500), (505, 543, 2, 504), (547, 563, 2, 546), (572, 572, 1, 571),
     (575, 576, 1, 11390), (578, 578, 1, 577), (583, 591, 2, 582), (592, 592, 1, 11375),
     (593, 593, 1, 11373), (594, 594, 1, 11376), (595, 595, 1, 385), (596, 596, 1, 390),
     (598, 599, 1, 393), (601, 601, 1, 399), (603, 603, 1, 400), (604, 604, 1, 42923),
     (608, 608, 1, 403), (609, 609, 1, 42924), (611, 611, 1, 404), (613, 613, 1, 42893),
     (614, 614, 1, 42922), (616, 616, 1, 407), (617, 617, 1, 406), (618, 618, 1, 42926),
     (619, 619, 1, 11362), (620, 620, 1, 42925), (623, 623, 1, 412), (625, 625, 1, 11374),
     (626, 626, 1, 413), (629, 629, 1, 415), (637, 637, 1, 11364), (640, 640, 1, 422),
     (642, 642, 1, 42949), (643, 643, 1, 425), (647, 647, 1, 42929), (648, 648, 1, 430),
     (649, 649, 1, 580), (650, 651, 1, 433), (652, 652, 1, 581), (658, 658, 1, 439),
     (669, 669, 1, 42930), (670, 670, 1, 42928), (837, 837, 1, 921), (881, 883, 2, 880),
     (887, 887, 1, 886), (891, 893, 1, 1021), (940, 940, 1, 902), (941, 943, 1, 904),
     (945, 961, 1, 913), (962, 962, 1, 931), (963, 971, 1, 931), (972, 972, 1, 908),
     (973, 974, 1, 910), (976, 976, 1, 914), (977, 977, 1, 920), (981, 981, 1, 934),
     (982, 982, 1, 928), (983, 983, 1, 975), (985, 1007, 2, 984), (1008, 1008, 1, 922),
     (1009, 1009, 1, 929), (1010, 1010, 1, 1017), (1011, 1011, 1, 895), (1013, 1013, 1, 917),
     (1016, 1016, 1, 1015), (1019, 1019, 1, 1018), (1072, 1103, 1, 1040), (1104, 1119, 1, 1024),
     (1121, 1153, 2, 1120), (1163, 1215, 2, 1162), (1218, 1230, 2, 1217), (1231, 1231, 1, 1216),
     (1233, 1327, 2, 1232), (1377, 1414, 1, 1329), (4304, 4346, 1, 7312), (4349, 4351, 1, 7357),
     (5112, 5117, 1, 5104), (7296, 7296, 1, 1042), (7297, 7297, 1, 1044), (7298, 7298, 1, 1054),
     (7299, 7300, 1, 1057), (7301, 7301, 1, 1058), (7302, 7302, 1, 1066), (7303, 7303, 1, 1122),
     (7304, 7304, 1, 42570), (7545, 7545, 1, 42877), (7549, 7549, 1, 11363), (7566, 7566, 1, 42950),
     (7681, 7829, 2, 7680), (7835, 7835, 1, 7776), (7841, 7935, 2, 7840), (7936, 7943, 1, 7944),
     (7952, 7957, 1, 7960), (7968, 7975, 1, 7976), (7984, 7991, 1, 7992), (8000, 8005, 1, 8008),
     (8017, 8023, 2, 8025), (8032, 8039, 1, 8040), (8048, 8049, 1, 8122), (8050, 8053, 1, 8136),
     (8054, 8055, 1, 8154), (8056, 8057, 1, 8184), (8058, 8059, 1, 8170), (8060, 8061, 1, 8186),
     (8112, 8113, 1, 8120), (8126, 8126, 1, 921), (8144, 8145, 1, 8152), (8160, 8161, 1, 8168),
     (8165, 8165, 1, 8172), (8526, 8526, 1, 8498), (8560, 8575, 1, 8544), (8580, 8580, 1, 8579),
     (9424, 9449, 1, 9398), (11312, 11359, 1, 11264), (11361, 11361, 1, 11360), (11365, 11365, 1, 570),
     (11366, 11366, 1, 574), (11368, 11372, 2, 11367), (11379, 11379, 1, 11378), (11382, 11382, 1, 11381),
     (11393, 11491, 2, 11392), (11500, 11502, 2, 11499), (11507, 11507, 1, 11506), (11520, 11557, 1, 4256),
     (11559, 11559, 1, 4295), (11565, 11565, 1, 4301), (42561, 42605, 2, 42560), (42625, 42651, 2, 42624),
     (42787, 42799, 2, 42786), (42803, 42863, 2, 42802), (42874, 42876, 2, 42873), (42879, 42887, 2, 42878),
     (42892, 42892, 1, 42891), (42897, 42899, 2, 42896), (42900, 42900, 1, 42948), (42903, 42921, 2, 42902),
     (42933, 42947, 2, 42932), (42952, 42954, 2, 42951), (42961, 42961, 1, 42960), (42967, 42969, 2, 42966),
     (42998, 42998, 1, 42997), (43859, 43859, 1, 42931), (43888, 43967, 1, 5024), (65345, 65370, 1, 65313),
     (66600, 66639, 1, 66560), (66776, 66811, 1, 66736), (66967, 66977, 1, 66928), (66979, 66993, 1, 66940),
     (66995, 67001, 1, 66956), (67003, 67004, 1, 66964), (68800, 68850, 1, 68736), (71872, 71903, 1, 71840),
     (93792, 93823, 1, 93760), (125218, 125251, 1, 125184)]"

definition upper_special :: "(nat \<times> nat list) list" where
  "upper_special =
    [(223, [83, 83]), (329, [700, 78]), (496, [74, 780]), (912, [921, 776, 769]),
     (944, [933, 776, 769]), (1415, [1333, 1362]), (7830, [72, 817]), (7831, [84, 776]),
     (7832, [87, 778]), (7833, [89, 778]), (7834, [65, 702]), (8016, [933, 787]),
     (8018, [933, 787, 768]), (8020, [933, 787, 769]), (8022, [933, 787, 834]), (8064, [7944, 921]),
     (8065, [7945, 921]), (8066, [7946, 921]), (8067, [7947, 921]), (8068, [7948, 921]),
     (8069, [7949, 921]), (8070, [7950, 921]), (8071, [7951, 921]), (8072, [7944, 921]),
     (8073, [7945, 921]), (8074, [7946, 921]), (8075, [7947, 921]), (8076, [7948, 921]),
     (8077, [7949, 921]), (8078, [7950, 921]), (8079, [7951, 921]), (8080, [7976, 921]),
     (8081, [7977, 921]), (8082, [7978, 921]), (8083, [7979, 921]), (8084, [7980, 921]),
     (8085, [7981, 921]), (8086, [7982, 921]), (8087, [7983, 921]), (8088, [7976, 921]),
     (8089, [7977, 921]), (8090, [7978, 921]), (8091, [7979, 921]), (8092, [7980, 921]),
     (8093, [7981, 921]), (8094, [7982, 921]), (8095, [7983, 921]), (8096, [8040, 921]),
     (8097, [8041, 921]), (8098, [8042, 921]), (8099, [8043, 921]), (8100, [8044, 921]),
     (8101, [8045, 921]), (8102, [8046, 921]), (8103, [8047, 921]), (8104, [8040, 921]),
     (8105, [8041, 921]), (8106, [8042, 921]), (8107, [8043, 921]), (8108, [8044, 921]),
     (8109, [8045, 921]), (8110, [8046, 921]), (8111, [8047, 921]), (8114, [8122, 921]),
     (8115, [913, 921]), (8116, [902, 921]), (8118, [913, 834]), (8119, [913, 834, 921]),
     (8124, [913, 921]), (8130, [8138, 921]), (8131, [919, 921]), (8132, [905, 921]),
     (8134, [919, 834]), (8135, [919, 834, 921]), (8140, [919, 921]), (8146, [921, 776, 768]),
     (8147, [921, 776, 769]), (8150, [921, 834]), (8151, [921, 776, 834]), (8162, [933, 776, 768]),
     (8163, [933, 776, 769]), (8164, [929, 787]), (8166, [933, 834]), (8167, [933, 776, 834]),
     (8178, [8186, 921]), (8179, [937, 921]), (8180, [911, 921]), (8182, [937, 834]),
     (8183, [937, 834, 921]), (8188, [937, 921]), (64256, [70, 70]), (64257, [70, 73]),
     (64258, [70, 76]), (64259, [70, 70, 73]), (64260, [70, 70, 76]), (64261, [83, 84]),
     (64262, [83, 84]), (64275, [1348, 1350]), (64276, [1348, 1333]), (64277, [1348, 1339]),
     (64278, [1358, 1350]), (64279, [1348, 1341])]"

fun in_ranges :: "(nat \<times> nat) list \<Rightarrow> nat \<Rightarrow> bool" where
  "in_ranges [] c = False"
| "in_ranges ((lo, hi) # rs) c =
     (if c < lo then False else if c \<le> hi then True else in_ranges rs c)"

text \<open>\<^verbatim>\<open>v.isnumeric()\<close>: at least one character, all of them numeric.\<close>

definition isnumeric :: "pystr \<Rightarrow> bool" where
  "isnumeric v = (v \<noteq> [] \<and> list_all (in_ranges numeric_ranges) v)"

fun decimal_value :: "(nat \<times> nat) list \<Rightarrow> nat \<Rightarrow> nat option" where
  "decimal_value [] c = None"
| "decimal_value ((lo, hi) # rs) c =
     (if c < lo then None else if c \<le> hi then Some ((c - lo) mod 10)
      else decimal_value rs c)"

fun digits_value :: "int \<Rightarrow> pystr \<Rightarrow> int option" where
  "digits_value acc [] = Some acc"
| "digits_value acc (c # cs) =
     (case decimal_value decimal_ranges c of
        None \<Rightarrow> None
      | Some d \<Rightarrow> digits_value (10 * acc + int d) cs)"

text \<open>\<^verbatim>\<open>str(n)\<close> for \<open>n \<ge> 0\<close> and \<^verbatim>\<open>s.zfill(width)\<close> for a string without sign.\<close>

fun str_of_nat :: "nat \<Rightarrow> pystr" where
  "str_of_nat n = (if n < 10 then [48 + n] else str_of_nat (n div 10) @ [48 + n mod 10])"

declare str_of_nat.simps [simp del]

definition zfill :: "nat \<Rightarrow> pystr \<Rightarrow> pystr" where
  "zfill width s = replicate (width - length s) 48 @ s"

text \<open>
  \<^verbatim>\<open>int(v)\<close> (CPython 3.11) on a string of numeric characters, the only strings the
  guard \<^verbatim>\<open>v.isnumeric()\<close> lets through (so there is no sign, blank or underscore to
  deal with, and \<^verbatim>\<open>repr(v)\<close> is \<^verbatim>\<open>v\<close> between single quotes).  The decimal digits at
  the start of the string are counted first: more than 4300 of them, the default
  of \<^verbatim>\<open>sys.get_int_max_str_digits()\<close>, raise \<^verbatim>\<open>ValueError\<close>.  Otherwise every character
  must be a decimal digit, or \<^verbatim>\<open>ValueError\<close> is raised with a message that shows the
  first 200 characters of \<^verbatim>\<open>repr(v)\<close>.
\<close>

definition py_int :: "pystr \<Rightarrow> error + int" where
  "py_int v =
     (let run = length (takeWhile (\<lambda>c. decimal_value decimal_ranges c \<noteq> None) v)
      in if 4300 < run
         then Inl (ValueError
                (str ''Exceeds the limit (4300 digits) for integer string conversion: value has '' @
                 str_of_nat run @
                 str '' digits; use sys.set_int_max_str_digits() to increase the limit''))
         else
           (case (if v = [] then None else digits_value 0 v) of
              Some n \<Rightarrow> Inr n
            | None \<Rightarrow>
                Inl (ValueError (str ''invalid literal for int() with base 10: '' @
                       take 200 ([39] @ v @ [39])))))"

fun upper_lookup :: "(nat \<times> nat \<times> nat \<times> nat) list \<Rightarrow> nat \<Rightarrow> nat" where
  "upper_lookup [] c = c"
| "upper_lookup ((lo, hi, st, tg) # rs) c =
     (if c < lo then c
      else if c \<le> hi \<and> (c - lo) mod st = 0 then tg + (c - lo)
      else upper_lookup rs c)"

definition upper_char :: "nat \<Rightarrow> pystr" where
  "upper_char c =
     (case map_of upper_special c of
        Some us \<Rightarrow> us
      | None \<Rightarrow> [upper_lookup upper_ranges c])"

definition upper :: "pystr \<Rightarrow> pystr" where
  "upper s = concat (map upper_char s)"

section \<open>Integers, floats and bytes\<close>

text \<open>
  \<open>a / b\<close> on Python integers is true division: the result is the IEEE-754 double
  nearest to the exact quotient, ties to even (CPython rounds the exact quotient once),
  \<^verbatim>\<open>OverflowError\<close> when that is \<open>2^1024\<close> or more.  A finite double is kept exactly, as
  \<open>(m, e)\<close> for \<open>m * 2^e\<close>.  \<open>double_exponent a b\<close> is the exponent of the last mantissa
  bit of the quotient: \<open>\<lfloor>log\<^sub>2 (a / b)\<rfloor> - 52\<close>, and \<open>-1074\<close> in the subnormal range.
\<close>

type_synonym pyfloat = "int \<times> int"

fun bit_length :: "nat \<Rightarrow> nat" where
  "bit_length n = (if n = 0 then 0 else Suc (bit_length (n div 2)))"

declare bit_length.simps [simp del]

definition round_half_even :: "nat \<Rightarrow> nat \<Rightarrow> nat" where
  "round_half_even n d =
     (if d < 2 * (n mod d) \<or> (2 * (n mod d) = d \<and> odd (n div d))
      then n div d + 1 else n div d)"

definition double_exponent :: "nat \<Rightarrow> nat \<Rightarrow> int" where
  "double_exponent a b =
     (let l = int (bit_length a) - int (bit_length b);
          fl = (if (if 0 \<le> l then b * 2 ^ nat l \<le> a else b \<le> a * 2 ^ nat (- l))
                then l else l - 1)
      in max (fl - 52) (- 1074))"

definition truediv :: "int \<Rightarrow> int \<Rightarrow> error + pyfloat" where
  "truediv a b =
     (if b = 0 then Inl (ZeroDivisionError (str ''division by zero''))
      else if a = 0 then Inr (0, 0)
      else
        (let n = nat \<bar>a\<bar>; d = nat \<bar>b\<bar>; e = double_exponent n d;
             m = (if e \<le> 0 then round_half_even (n * 2 ^ nat (- e)) d
                  else round_half_even n (d * 2 ^ nat e))
         in if 1024 < int (bit_length m) + e
            then Inl (OverflowError (str ''integer division result too large for a float''))
            else Inr (sgn a * sgn b * int m, e)))"

text \<open>\<^verbatim>\<open>int(x)\<close> on a float truncates towards zero.\<close>

definition int_of_float :: "pyfloat \<Rightarrow> int" where
  "int_of_float x =
     (case x of (m, e) \<Rightarrow>
        if 0 \<le> e then m * 2 ^ nat e else sgn m * (\<bar>m\<bar> div 2 ^ nat (- e)))"

text \<open>Big-endian bytes of a natural number that fits.\<close>

fun nat_to_bytes :: "nat \<Rightarrow> nat \<Rightarrow> bytes" where
  "nat_to_bytes 0 v = []"
| "nat_to_bytes (Suc n) v = nat_to_bytes n (v div 256) @ [word_of_nat (v mod 256)]"

text \<open>\<^verbatim>\<open>n.to_bytes(8, byteorder='big')\<close>: unsigned, \<^verbatim>\<open>OverflowError\<close> out of range.\<close>

definition to_bytes8 :: "int \<Rightarrow> error + bytes" where
  "to_bytes8 n =
     (if n < 0 then Inl (OverflowError (str ''can'' @ [39] @ str ''t convert negative int to unsigned''))
      else if 2 ^ 64 \<le> n then Inl (OverflowError (str ''int too big to convert''))
      else Inr (nat_to_bytes 8 (nat n)))"

text \<open>\<^verbatim>\<open>int.from_bytes(b, byteorder='big')\<close>.\<close>

definition from_bytes :: "bytes \<Rightarrow> int" where
  "from_bytes b = foldl (\<lambda>acc x. 256 * acc + uint x) 0 b"

section \<open>base64.b32decode\<close>

text \<open>
  \<^verbatim>\<open>base64.b32decode(s, casefold=True)\<close> (CPython 3.11).  The secret is a \<^verbatim>\<open>str\<close>: it is
  encoded as ASCII first, which fails with \<^verbatim>\<open>ValueError\<close>; every other failure is
  \<^verbatim>\<open>binascii.Error\<close>.  The result of the loop over the quanta is the decoded bytes and
  the accumulator of the last quantum.
\<close>

definition b32_value :: "nat \<Rightarrow> nat option" where
  "b32_value c =
     (if 65 \<le> c \<and> c \<le> 90 then Some (c - 65)
      else if 50 \<le> c \<and> c \<le> 55 then Some (c - 24)
      else None)"

fun quantum_acc :: "nat \<Rightarrow> pystr \<Rightarrow> nat option" where
  "quantum_acc acc [] = Some acc"
| "quantum_acc acc (c # cs) =
     (case b32_value c of None \<Rightarrow> None | Some v \<Rightarrow> quantum_acc (acc * 32 + v) cs)"

fun b32_quanta :: "pystr \<Rightarrow> (bytes \<times> nat) option" where
  "b32_quanta [] = Some ([], 0)"
| "b32_quanta (c # cs) =
     (case quantum_acc 0 (take 8 (c # cs)) of
        None \<Rightarrow> None
      | Some acc \<Rightarrow>
          (case b32_quanta (drop 8 (c # cs)) of
             None \<Rightarrow> None
           | Some (decoded, last_acc) \<Rightarrow>
               Some (nat_to_bytes 5 acc @ decoded,
                     if drop 8 (c # cs) = [] then acc else last_acc)))"

definition rstrip :: "nat \<Rightarrow> pystr \<Rightarrow> pystr" where
  "rstrip ch s = rev (dropWhile (\<lambda>c. c = ch) (rev s))"

definition b32decode :: "pystr \<Rightarrow> error + bytes" where
  "b32decode s0 =
     (if \<not> list_all (\<lambda>c. c < 128) s0
      then Inl (ValueError (str ''string argument should contain only ASCII characters''))
      else if length s0 mod 8 \<noteq> 0 then Inl (BinasciiError (str ''Incorrect padding''))
      else
        (let s1 = map ascii_upper s0;
             s = rstrip 61 s1;
             padchars = length s1 - length s
         in case b32_quanta s of
              None \<Rightarrow> Inl (BinasciiError (str ''Non-base32 digit found''))
            | Some (decoded, acc) \<Rightarrow>
                if padchars \<notin> {0, 1, 3, 4, 6}
                then Inl (BinasciiError (str ''Incorrect padding''))
                else if padchars \<noteq> 0 \<and> decoded \<noteq> []
                then Inr (take (length decoded - 5) decoded @
                          take ((43 - 5 * padchars) div 8)
                            (nat_to_bytes 5 (acc * 2 ^ (5 * padchars))))
                else Inr decoded))"

section \<open>hashlib and hmac\<close>

text \<open>
  \<^verbatim>\<open>hashlib.sha1\<close>, \<^verbatim>\<open>hashlib.sha256\<close> and \<^verbatim>\<open>hashlib.sha512\<close> compute the Secure Hash
  Algorithms of FIPS 180-4 on \<open>32\<close>- and \<open>64\<close>-bit words: the message is padded to whole
  blocks of sixteen words, and every block updates the hash value.
\<close>

type_synonym w32 = "32 word"
type_synonym w64 = "64 word"

function chunk_list :: "nat \<Rightarrow> 'a list \<Rightarrow> 'a list list" where
  "chunk_list n xs = (if xs = [] \<or> n = 0 then [] else take n xs # chunk_list n (drop n xs))"
  by pat_completeness auto
termination
  by (relation "measure (\<lambda>(n, xs). length xs)") auto

declare chunk_list.simps [simp del]

definition bytes_to_nat :: "bytes \<Rightarrow> nat" where
  "bytes_to_nat b = foldl (\<lambda>acc x. 256 * acc + unat x) 0 b"

definition words_of :: "nat \<Rightarrow> bytes \<Rightarrow> 'a::len word list" where
  "words_of n b = map (\<lambda>c. word_of_nat (bytes_to_nat c)) (chunk_list n b)"

definition word_bytes :: "nat \<Rightarrow> 'a::len word \<Rightarrow> bytes" where
  "word_bytes n w = nat_to_bytes n (unat w)"

definition md_pad :: "nat \<Rightarrow> bytes \<Rightarrow> bytes" where
  "md_pad lenbytes m =
     m @ [0x80] @
     replicate ((8 * lenbytes - (length m + 1 + lenbytes) mod (8 * lenbytes)) mod (8 * lenbytes)) 0 @
     nat_to_bytes lenbytes (8 * length m)"

definition rotl :: "nat \<Rightarrow> 'a::len word \<Rightarrow> 'a word" where
  "rotl n x = push_bit n x OR drop_bit (LENGTH('a) - n) x"

definition rotr :: "nat \<Rightarrow> 'a::len word \<Rightarrow> 'a word" where
  "rotr n x = drop_bit n x OR push_bit (LENGTH('a) - n) x"

definition Ch :: "'a::len word \<Rightarrow> 'a word \<Rightarrow> 'a word \<Rightarrow> 'a word" where
  "Ch x y z = (x AND y) XOR (NOT x AND z)"

definition Parity :: "'a::len word \<Rightarrow> 'a word \<Rightarrow> 'a word \<Rightarrow> 'a word" where
  "Parity x y z = x XOR y XOR z"

definition Maj :: "'a::len word \<Rightarrow> 'a word \<Rightarrow> 'a word \<Rightarrow> 'a word" where
  "Maj x y z = (x AND y) XOR (x AND z) XOR (y AND z)"

subsection \<open>SHA-1\<close>

type_synonym sha1_state = "w32 \<times> w32 \<times> w32 \<times> w32 \<times> w32"

text \<open>The message schedule, most recent word first: \<open>n\<close> more words are due.\<close>

fun sha1_schedule :: "nat \<Rightarrow> w32 list \<Rightarrow> w32 list" where
  "sha1_schedule 0 ws = rev ws"
| "sha1_schedule (Suc n) ws =
     sha1_schedule n (rotl 1 (ws ! 2 XOR ws ! 7 XOR ws ! 13 XOR ws ! 15) # ws)"

text \<open>Twenty rounds share the function \<open>f\<close> and the constant \<open>k\<close>.\<close>

fun sha1_rounds :: "(w32 \<Rightarrow> w32 \<Rightarrow> w32 \<Rightarrow> w32) \<Rightarrow> w32 \<Rightarrow> w32 list \<Rightarrow> sha1_state \<Rightarrow> sha1_state" where
  "sha1_rounds f k [] s = s"
| "sha1_rounds f k (w # ws) (a, b, c, d, e) =
     sha1_rounds f k ws (rotl 5 a + f b c d + e + k + w, a, rotl 30 b, c, d)"

fun sha1_add :: "sha1_state \<Rightarrow> sha1_state \<Rightarrow> sha1_state" where
  "sha1_add (a, b, c, d, e) (a', b', c', d', e') = (a + a', b + b', c + c', d + d', e + e')"

definition sha1_compress :: "sha1_state \<Rightarrow> bytes \<Rightarrow> sha1_state" where
  "sha1_compress h block =
     (let w = sha1_schedule 64 (rev (words_of 4 block))
      in sha1_add h
           (sha1_rounds Parity 0xCA62C1D6 (drop 60 w)
             (sha1_rounds Maj 0x8F1BBCDC (take 20 (drop 40 w))
               (sha1_rounds Parity 0x6ED9EBA1 (take 20 (drop 20 w))
                 (sha1_rounds Ch 0x5A827999 (take 20 w) h)))))"

fun sha1_out :: "sha1_state \<Rightarrow> bytes" where
  "sha1_out (a, b, c, d, e) = concat (map (word_bytes 4) [a, b, c, d, e])"

definition sha1 :: "bytes \<Rightarrow> bytes" where
  "sha1 m =
     sha1_out (foldl sha1_compress
       (0x67452301, 0xEFCDAB89, 0x98BADCFE, 0x10325476, 0xC3D2E1F0)
       (chunk_list 64 (md_pad 8 m)))"

subsection \<open>SHA-256 and SHA-512\<close>

type_synonym 'a sha2_state =
  "'a word \<times> 'a word \<times> 'a word \<times> 'a word \<times> 'a word \<times> 'a word \<times> 'a word \<times> 'a word"

fun sha2_schedule ::
  "('a::len word \<Rightarrow> 'a word) \<Rightarrow> ('a word \<Rightarrow> 'a word) \<Rightarrow> nat \<Rightarrow> 'a word list \<Rightarrow> 'a word list" where
  "sha2_schedule s0 s1 0 ws = rev ws"
| "sha2_schedule s0 s1 (Suc n) ws =
     sha2_schedule s0 s1 n ((s1 (ws ! 1) + ws ! 6 + s0 (ws ! 14) + ws ! 15) # ws)"

fun sha2_rounds ::
  "('a::len word \<Rightarrow> 'a word) \<Rightarrow> ('a word \<Rightarrow> 'a word) \<Rightarrow> ('a word \<times> 'a word) list \<Rightarrow>
     'a sha2_state \<Rightarrow> 'a sha2_state" where
  "sha2_rounds S0 S1 [] s = s"
| "sha2_rounds S0 S1 ((k, w) # kws) (a, b, c, d, e, f, g, h) =
     sha2_rounds S0 S1 kws
       ((h + S1 e + Ch e f g + k + w) + (S0 a + Maj a b c), a, b, c,
        d + (h + S1 e + Ch e f g + k + w), e, f, g)"

fun sha2_add :: "'a::len sha2_state \<Rightarrow> 'a sha2_state \<Rightarrow> 'a sha2_state" where
  "sha2_add (a, b, c, d, e, f, g, h) (a', b', c', d', e', f', g', h') =
     (a + a', b + b', c + c', d + d', e + e', f + f', g + g', h + h')"

fun sha2_out :: "nat \<Rightarrow> 'a::len sha2_state \<Rightarrow> bytes" where
  "sha2_out n (a, b, c, d, e, f, g, h) = concat (map (word_bytes n) [a, b, c, d, e, f, g, h])"

definition K256 :: "w32 list" where
  "K256 =
    [0x428A2F98, 0x71374491, 0xB5C0FBCF, 0xE9B5DBA5, 0x3956C25B, 0x59F111F1,
     0x923F82A4, 0xAB1C5ED5, 0xD807AA98, 0x12835B01, 0x243185BE, 0x550C7DC3,
     0x72BE5D74, 0x80DEB1FE, 0x9BDC06A7, 0xC19BF174, 0xE49B69C1, 0xEFBE4786,
     0x0FC19DC6, 0x240CA1CC, 0x2DE92C6F, 0x4A7484AA, 0x5CB0A9DC, 0x76F988DA,
     0x983E5152, 0xA831C66D, 0xB00327C8, 0xBF597FC7, 0xC6E00BF3, 0xD5A79147,
     0x06CA6351, 0x14292967, 0x27B70A85, 0x2E1B2138, 0x4D2C6DFC, 0x53380D13,
     0x650A7354, 0x766A0ABB, 0x81C2C92E, 0x92722C85, 0xA2BFE8A1, 0xA81A664B,
     0xC24B8B70, 0xC76C51A3, 0xD192E819, 0xD6990624, 0xF40E3585, 0x106AA070,
     0x19A4C116, 0x1E376C08, 0x2748774C, 0x34B0BCB5, 0x391C0CB3, 0x4ED8AA4A,
     0x5B9CCA4F, 0x682E6FF3, 0x748F82EE, 0x78A5636F, 0x84C87814, 0x8CC70208,
     0x90BEFFFA, 0xA4506CEB, 0xBEF9A3F7, 0xC67178F2]"

definition sha256_compress :: "32 sha2_state \<Rightarrow> bytes \<Rightarrow> 32 sha2_state" where
  "sha256_compress h block =
     sha2_add h
       (sha2_rounds (\<lambda>x. rotr 2 x XOR rotr 13 x XOR rotr 22 x)
          (\<lambda>x. rotr 6 x XOR rotr 11 x XOR rotr 25 x)
          (zip K256
             (sha2_schedule (\<lambda>x. rotr 7 x XOR rotr 18 x XOR drop_bit 3 x)
                (\<lambda>x. rotr 17 x XOR rotr 19 x XOR drop_bit 10 x) 48 (rev (words_of 4 block))))
          h)"

definition sha256 :: "bytes \<Rightarrow> bytes" where
  "sha256 m =
     sha2_out 4 (foldl sha256_compress
       (0x6A09E667, 0xBB67AE85, 0x3C6EF372, 0xA54FF53A, 0x510E527F, 0x9B05688C, 0x1F83D9AB, 0x5BE0CD19)
       (chunk_list 64 (md_pad 8 m)))"

definition K512 :: "w64 list" where
  "K512 =
    [0x428A2F98D728AE22, 0x7137449123EF65CD, 0xB5C0FBCFEC4D3B2F, 0xE9B5DBA58189DBBC,
     0x3956C25BF348B538, 0x59F111F1B605D019, 0x923F82A4AF194F9B, 0xAB1C5ED5DA6D8118,
     0xD807AA98A3030242, 0x12835B0145706FBE, 0x243185BE4EE4B28C, 0x550C7DC3D5FFB4E2,
     0x72BE5D74F27B896F, 0x80DEB1FE3B1696B1, 0x9BDC06A725C71235, 0xC19BF174CF692694,
     0xE49B69C19EF14AD2, 0xEFBE4786384F25E3, 0x0FC19DC68B8CD5B5, 0x240CA1CC77AC9C65,
     0x2DE92C6F592B0275, 0x4A7484AA6EA6E483, 0x5CB0A9DCBD41FBD4, 0x76F988DA831153B5,
     0x983E5152EE66DFAB, 0xA831C66D2DB43210, 0xB00327C898FB213F, 0xBF597FC7BEEF0EE4,
     0xC6E00BF33DA88FC2, 0xD5A79147930AA725, 0x06CA6351E003826F, 0x142929670A0E6E70,
     0x27B70A8546D22FFC, 0x2E1B21385C26C926, 0x4D2C6DFC5AC42AED, 0x53380D139D95B3DF,
     0x650A73548BAF63DE, 0x766A0ABB3C77B2A8, 0x81C2C92E47EDAEE6, 0x92722C851482353B,
     0xA2BFE8A14CF10364, 0xA81A664BBC423001, 0xC24B8B70D0F89791, 0xC76C51A30654BE30,
     0xD192E819D6EF5218, 0xD69906245565A910, 0xF40E35855771202A, 0x106AA07032BBD1B8,
     0x19A4C116B8D2D0C8, 0x1E376C085141AB53, 0x2748774CDF8EEB99, 0x34B0BCB5E19B48A8,
     0x391C0CB3C5C95A63, 0x4ED8AA4AE3418ACB, 0x5B9CCA4F7763E373, 0x682E6FF3D6B2B8A3,
     0x748F82EE5DEFB2FC, 0x78A5636F43172F60, 0x84C87814A1F0AB72, 0x8CC702081A6439EC,
     0x90BEFFFA23631E28, 0xA4506CEBDE82BDE9, 0xBEF9A3F7B2C67915, 0xC67178F2E372532B,
     0xCA273ECEEA26619C, 0xD186B8C721C0C207, 0xEADA7DD6CDE0EB1E, 0xF57D4F7FEE6ED178,
     0x06F067AA72176FBA, 0x0A637DC5A2C898A6, 0x113F9804BEF90DAE, 0x1B710B35131C471B,
     0x28DB77F523047D84, 0x32CAAB7B40C72493, 0x3C9EBE0A15C9BEBC, 0x431D67C49C100D4C,
     0x4CC5D4BECB3E42B6, 0x597F299CFC657E2A, 0x5FCB6FAB3AD6FAEC, 0x6C44198C4A475817]"

definition sha512_compress :: "64 sha2_state \<Rightarrow> bytes \<Rightarrow> 64 sha2_state" where
  "sha512_compress h block =
     sha2_add h
       (sha2_rounds (\<lambda>x. rotr 28 x XOR rotr 34 x XOR rotr 39 x)
          (\<lambda>x. rotr 14 x XOR rotr 18 x XOR rotr 41 x)
          (zip K512
             (sha2_schedule (\<lambda>x. rotr 1 x XOR rotr 8 x XOR drop_bit 7 x)
                (\<lambda>x. rotr 19 x XOR rotr 61 x XOR drop_bit 6 x) 64 (rev (words_of 8 block))))
          h)"

definition sha512 :: "bytes \<Rightarrow> bytes" where
  "sha512 m =
     sha2_out 8 (foldl sha512_compress
       (0x6A09E667F3BCC908, 0xBB67AE8584CAA73B, 0x3C6EF372FE94F82B, 0xA54FF53A5F1D36F1, 0x510E527FADE682D1, 0x9B05688C2B3E6C1F, 0x1F83D9ABFB41BD6B, 0x5BE0CD19137E2179)
       (chunk_list 128 (md_pad 16 m)))"

subsection \<open>hmac\<close>

text \<open>
  The value of the local variable \<^verbatim>\<open>hash\<close>: one of the three constructors of
  \<^verbatim>\<open>hashlib\<close>, with its digest function and its block size.
\<close>

datatype hash = Hash_sha1 | Hash_sha256 | Hash_sha512

fun hash_digest :: "hash \<Rightarrow> bytes \<Rightarrow> bytes" where
  "hash_digest Hash_sha1 = sha1"
| "hash_digest Hash_sha256 = sha256"
| "hash_digest Hash_sha512 = sha512"

fun block_size :: "hash \<Rightarrow> nat" where
  "block_size Hash_sha1 = 64"
| "block_size Hash_sha256 = 64"
| "block_size Hash_sha512 = 128"

text \<open>
  \<^verbatim>\<open>hmac.new(key, msg=msg, digestmod=hash).digest()\<close> (RFC 2104): a key longer than a
  block is hashed first, the key is filled with zero bytes to a block, then
  \<open>H((key XOR opad) || H((key XOR ipad) || msg))\<close>.
\<close>

definition hmac_digest :: "hash \<Rightarrow> bytes \<Rightarrow> bytes \<Rightarrow> bytes" where
  "hmac_digest h key msg =
     (let k0 = (if block_size h < length key then hash_digest h key else key);
          k = k0 @ replicate (block_size h - length k0) 0
      in hash_digest h (map (\<lambda>b. b XOR 0x5C) k @ hash_digest h (map (\<lambda>b. b XOR 0x36) k @ msg)))"

section \<open>get_totp_code\<close>

record TotpCode =
  code :: pystr
  time_left :: int
  period :: int

text \<open>
  The local variables \<^verbatim>\<open>secret\<close>, \<^verbatim>\<open>algorithm\<close>, \<^verbatim>\<open>digits\<close>, \<^verbatim>\<open>period\<close> and
  \<^verbatim>\<open>counter\<close> of the loop over the query string (\<open>None\<close> is Python's \<^verbatim>\<open>None\<close>).
\<close>

type_synonym totp_vars = "pystr option \<times> pystr \<times> int \<times> int \<times> int"

text \<open>\<^verbatim>\<open>int(v) if v.isnumeric() and int(v) > 0 else cur\<close>, where \<^verbatim>\<open>int(v)\<close> may raise.\<close>

definition positive_int_or :: "pystr \<Rightarrow> int \<Rightarrow> error + int" where
  "positive_int_or v cur =
     (if isnumeric v then
        (case py_int v of
           Inl e \<Rightarrow> Inl e
         | Inr n \<Rightarrow> if 0 < n then py_int v else Inr cur)
      else Inr cur)"

fun query_loop :: "(pystr \<times> pystr) list \<Rightarrow> totp_vars \<Rightarrow> error + totp_vars" where
  "query_loop [] vars = Inr vars"
| "query_loop ((k, v) # kvs) (secret, algorithm, digits, per, counter) =
     (if k = str ''secret'' then query_loop kvs (Some v, algorithm, digits, per, counter)
      else if k = str ''algorithm'' then query_loop kvs (secret, v, digits, per, counter)
      else if k = str ''digits'' then
        (case positive_int_or v digits of
           Inl e \<Rightarrow> Inl e
         | Inr n \<Rightarrow> query_loop kvs (secret, algorithm, n, per, counter))
      else if k = str ''period'' then
        (case positive_int_or v per of
           Inl e \<Rightarrow> Inl e
         | Inr n \<Rightarrow> query_loop kvs (secret, algorithm, digits, n, counter))
      else if k = str ''counter'' then
        (case positive_int_or v counter of
           Inl e \<Rightarrow> Inl e
         | Inr n \<Rightarrow> query_loop kvs (secret, algorithm, digits, per, n))
      else query_loop kvs (secret, algorithm, digits, per, counter))"

definition select_hash :: "pystr \<Rightarrow> hash option" where
  "select_hash algorithm =
     (if algorithm = str ''SHA1'' then Some Hash_sha1
      else if algorithm = str ''SHA256'' then Some Hash_sha256
      else if algorithm = str ''SHA512'' then Some Hash_sha512
      else None)"

text \<open>
  Lines 117 to 156: the scheme check, the loop over the query string and the validation
  of the parameters.  The result is the secret, the hash constructor, \<^verbatim>\<open>digits\<close>,
  \<^verbatim>\<open>period\<close> and \<^verbatim>\<open>counter\<close>.
\<close>

definition totp_params :: "ParseResult \<Rightarrow> error + (pystr \<times> hash \<times> int \<times> int \<times> int)" where
  "totp_params parsed =
     (if scheme parsed \<noteq> str ''otpauth'' then Inl (ValueError (str ''Not an otpauth URI''))
      else
        (case query_loop (parse_qsl (query parsed)) (None, str ''SHA1'', 6, 30, 0) of
           Inl e \<Rightarrow> Inl e
         | Inr (secret, algorithm, digits, per, counter) \<Rightarrow>
             if secret = None \<or> secret = Some []
             then Inl (ValueError (str ''TOTP secret not found in URI''))
             else
               (case select_hash (upper algorithm) of
                  None \<Rightarrow>
                    Inl (ValueError (str ''Invalid value '' @ [34] @ upper algorithm @ [34] @
                      str '' for TOTP algorithm, must be SHA1, SHA256 or SHA512''))
                | Some h \<Rightarrow>
                    if digits \<notin> {6, 7, 8}
                    then Inl (ValueError (str ''TOTP Digits may only be 6, 7, or 8''))
                    else Inr (the secret, h, digits, per, counter))))"

text \<open>Lines 160 to 163: the padding of the secret.\<close>

definition pad_secret :: "pystr \<Rightarrow> pystr" where
  "pad_secret secret =
     (if length secret mod 8 \<in> {2, 4, 5, 7}
      then secret @ replicate (8 - length secret mod 8) 61
      else secret)"

text \<open>
  Lines 169 to 172, the dynamic truncation.  A slice never raises in Python, it is
  cut at the end of the digest; the two index operations raise \<^verbatim>\<open>IndexError\<close> on an
  empty sequence.
\<close>

definition dynamic_truncate :: "bytes \<Rightarrow> error + int" where
  "dynamic_truncate digest =
     (if digest = [] then Inl (IndexError (str ''index out of range''))
      else
        (let offset = unat (last digest AND 0x0F);
             base = take 4 (drop offset digest)
         in if base = [] then Inl (IndexError (str ''bytearray index out of range''))
            else Inr (from_bytes ((hd base AND 0x7F) # tl base))))"

text \<open>Line 173: \<^verbatim>\<open>str(code_int % (10 ** digits)).zfill(digits)\<close>.\<close>

definition format_code :: "int \<Rightarrow> int \<Rightarrow> pystr" where
  "format_code code_int digits =
     zfill (nat digits) (str_of_nat (nat (code_int mod 10 ^ nat digits)))"

text \<open>Lines 159 to 177, from the moving factor \<^verbatim>\<open>tm_base\<close> on.\<close>

definition totp_generate :: "int \<Rightarrow> pystr \<Rightarrow> hash \<Rightarrow> int \<Rightarrow> int \<Rightarrow> error + TotpCode" where
  "totp_generate tm_base secret h digits per =
     (case truediv tm_base per of
        Inl e \<Rightarrow> Inl e
      | Inr tm \<Rightarrow>
     (case b32decode (pad_secret secret) of
        Inl e \<Rightarrow> Inl e
      | Inr key \<Rightarrow>
     (case to_bytes8 (int_of_float tm) of
        Inl e \<Rightarrow> Inl e
      | Inr msg \<Rightarrow>
     (case dynamic_truncate (hmac_digest h key msg) of
        Inl e \<Rightarrow> Inl e
      | Inr code_int \<Rightarrow>
          Inr \<lparr>code = format_code code_int digits,
               time_left = per - tm_base mod per,
               period = per\<rparr>))))"

text \<open>
  The function.  The wall clock is a stream of the successive values of
  \<^verbatim>\<open>int(datetime.datetime.now().timestamp())\<close>; reading it takes the head, and the rest
  of the stream is returned with the result, so that a call that does not read the
  clock returns the stream unchanged.
\<close>

definition get_totp_code ::
  "netloc_checks \<Rightarrow> pystr \<Rightarrow> int stream \<Rightarrow> (error + TotpCode) \<times> int stream" where
  "get_totp_code lib url clock =
     (case urlparse lib url of
        Inl e \<Rightarrow> (Inl e, clock)
      | Inr parsed \<Rightarrow>
          (case totp_params parsed of
             Inl e \<Rightarrow> (Inl e, clock)
           | Inr (secret, h, digits, per, counter) \<Rightarrow>
               if 0 < counter then (totp_generate counter secret h digits per, clock)
               else (totp_generate (shd clock) secret h digits per, stl clock)))"

subsection \<open>The test vector of RFC 6238\<close>

text \<open>
  The key \<^verbatim>\<open>12345678901234567890\<close> in base32, SHA-1, eight digits, at Unix time 59: once
  with the moving factor given by \<^verbatim>\<open>counter=59\<close>, once left to the wall clock.
\<close>

definition rfc6238_secret :: pystr where
  "rfc6238_secret = str ''GEZDGNBVGY3TQOJQGEZDGNBVGY3TQOJQ''"

definition rfc6238_counter_uri :: pystr where
  "rfc6238_counter_uri =
     str ''otpauth://totp/x?secret=GEZDGNBVGY3TQOJQGEZDGNBVGY3TQOJQ&algorithm=SHA1&digits=8&counter=59''"

definition rfc6238_clock_uri :: pystr where
  "rfc6238_clock_uri =
     str ''otpauth://totp/x?secret=GEZDGNBVGY3TQOJQGEZDGNBVGY3TQOJQ&algorithm=SHA1&digits=8''"

subsection \<open>The last occurrence of a parameter, in the words of the specification\<close>

text \<open>
  A value passes the coercion rule of \<^verbatim>\<open>digits\<close>, \<^verbatim>\<open>period\<close> and \<^verbatim>\<open>counter\<close> when it is
  numeric and its integer is positive; it raises when it is numeric and \<^verbatim>\<open>int\<close>
  rejects it.  \<open>last_passing key kvs dflt\<close> is the integer of the last occurrence of
  \<open>key\<close> that passes, \<open>dflt\<close> when there is none; \<open>last_value key kvs\<close> is the value of the
  last occurrence of \<open>key\<close>.
\<close>

definition passes :: "pystr \<Rightarrow> bool" where
  "passes v = (isnumeric v \<and> (case py_int v of Inl e \<Rightarrow> False | Inr n \<Rightarrow> 0 < n))"

definition raises :: "pystr \<Rightarrow> bool" where
  "raises v = (isnumeric v \<and> (case py_int v of Inl e \<Rightarrow> True | Inr n \<Rightarrow> False))"

definition int_value :: "pystr \<Rightarrow> int" where
  "int_value v = (case py_int v of Inl e \<Rightarrow> 0 | Inr n \<Rightarrow> n)"

definition last_passing :: "pystr \<Rightarrow> (pystr \<times> pystr) list \<Rightarrow> int \<Rightarrow> int" where
  "last_passing key kvs dflt =
     (case filter (\<lambda>kv. fst kv = key \<and> passes (snd kv)) kvs of
        [] \<Rightarrow> dflt
      | p # ps \<Rightarrow> int_value (snd (last (p # ps))))"

definition last_value :: "pystr \<Rightarrow> (pystr \<times> pystr) list \<Rightarrow> pystr option" where
  "last_value key kvs =
     (case filter (\<lambda>kv. fst kv = key) kvs of
        [] \<Rightarrow> None
      | p # ps \<Rightarrow> Some (snd (last (p # ps))))"

subsection \<open>Inputs used below\<close>

text \<open>
  \<^verbatim>\<open>sub in s\<close> on strings, to say that a message mentions a value, and the URIs at
  which the claims are evaluated.  U+00B2 (code point 178) is the superscript two: a
  numeric character that is no decimal digit.  The network location of these URIs is
  \<^verbatim>\<open>totp\<close>, ASCII and without brackets, so that urllib's two checks of the network
  location are not called; where a statement without free variables needs a value for
  them, it is \<open>accepting\<close>.
\<close>

fun startswith :: "pystr \<Rightarrow> pystr \<Rightarrow> bool" where
  "startswith s [] = True"
| "startswith [] (p # ps) = False"
| "startswith (c # cs) (p # ps) = (c = p \<and> startswith cs ps)"

fun contains :: "pystr \<Rightarrow> pystr \<Rightarrow> bool" where
  "contains [] sub = (sub = [])"
| "contains (c # cs) sub = (startswith (c # cs) sub \<or> contains cs sub)"

definition accepting :: netloc_checks where
  "accepting = \<lparr>check_bracketed_host = (\<lambda>host. None), checknetloc = (\<lambda>nl. None)\<rparr>"

definition superscript_two_uri :: pystr where
  "superscript_two_uri =
     str ''otpauth://totp/x?secret=GEZDGNBVGY3TQOJQGEZDGNBVGY3TQOJQ&digits='' @ [178]"

definition superscript_two_escaped_uri :: pystr where
  "superscript_two_escaped_uri =
     str ''otpauth://totp/x?secret=GEZDGNBVGY3TQOJQGEZDGNBVGY3TQOJQ&digits=%C2%B2''"

definition repeated_digits_uri :: pystr where
  "repeated_digits_uri =
     str ''otpauth://totp/x?secret=GEZDGNBVGY3TQOJQGEZDGNBVGY3TQOJQ&digits='' @ [178] @
     str ''&digits=8''"

definition md5_uri :: pystr where
  "md5_uri = str ''otpauth://totp/x?secret=GEZDGNBVGY3TQOJQGEZDGNBVGY3TQOJQ&algorithm=md5''"

definition md5_no_secret_uri :: pystr where
  "md5_no_secret_uri = str ''otpauth://totp/x?algorithm=md5''"

definition unsupported_message :: "pystr \<Rightarrow> pystr" where
  "unsupported_message a =
     str ''Invalid value '' @ [34] @ a @ [34] @
     str '' for TOTP algorithm, must be SHA1, SHA256 or SHA512''"

definition odd_length_secret_uri :: pystr where
  "odd_length_secret_uri = str ''otpauth://totp/x?secret=JBSWY3DPE&counter=59''"

text \<open>
  Secrets with a character outside the base32 alphabet (the digit 1), of length 8 and
  of length 2, and a counter of 311 digits, \<open>10^310\<close>, with a secret of length 9.
\<close>

definition non_base32_secret_uri :: pystr where
  "non_base32_secret_uri = str ''otpauth://totp/x?secret=GEZDGNB1&counter=59''"

definition short_non_base32_secret_uri :: pystr where
  "short_non_base32_secret_uri = str ''otpauth://totp/x?secret=M1&counter=59''"

definition overflow_counter_uri :: pystr where
  "overflow_counter_uri =
     str ''otpauth://totp/x?secret=JBSWY3DPE&counter=1'' @ replicate 310 48"

definition large_counter_uri :: pystr where
  "large_counter_uri =
     str ''otpauth://totp/x?secret=GEZDGNBVGY3TQOJQGEZDGNBVGY3TQOJQ&period=1&counter=9007199254740993''"

section \<open>Properties of the model\<close>

subsection \<open>The query loop and the two stages\<close>

lemma positive_int_or_cases:
  "positive_int_or v cur = Inr n \<Longrightarrow> n = cur \<or> 0 < n"
  by (auto simp: positive_int_or_def split: if_splits sum.splits)

lemma query_loop_positive:
  "query_loop kvs (s, a, d, p, c) = Inr (s', a', d', p', c') \<Longrightarrow> 0 < p \<Longrightarrow> 0 < p'"
proof (induction kvs arbitrary: s a d p c)
  case Nil
  then show ?case by simp
next
  case (Cons kv kvs)
  obtain k v where kv: "kv = (k, v)" by (cases kv)
  show ?case
    using Cons.prems Cons.IH unfolding kv
    by (auto split: if_splits sum.splits dest: positive_int_or_cases)
qed

lemma totp_params_Inr:
  assumes "totp_params parsed = Inr (secret, h, digits, per, counter)"
  shows "0 < per" and "digits \<in> {6, 7, 8}" and "secret \<noteq> []"
  using assms query_loop_positive [of "parse_qsl (query parsed)" None "str ''SHA1''" 6 30 0]
  by (auto simp: totp_params_def split: if_splits sum.splits option.splits prod.splits)

lemma totp_generate_Inr:
  assumes "totp_generate tm_base secret h digits per = Inr r"
  shows "time_left r = per - tm_base mod per" and "period r = per"
    and "\<exists>code_int. code r = format_code code_int digits"
  using assms by (auto simp: totp_generate_def split: sum.splits)

lemma totp_generate_steps:
  assumes "totp_generate tm_base secret h digits per = Inr r"
  shows "\<exists>tm key msg code_int.
           truediv tm_base per = Inr tm \<and>
           b32decode (pad_secret secret) = Inr key \<and>
           to_bytes8 (int_of_float tm) = Inr msg \<and>
           dynamic_truncate (hmac_digest h key msg) = Inr code_int \<and>
           code r = format_code code_int digits"
  using assms by (auto simp: totp_generate_def split: sum.splits)

subsection \<open>Digests, truncation and formatting\<close>

lemma length_nat_to_bytes: "length (nat_to_bytes n v) = n"
  by (induction n arbitrary: v) simp_all

lemma length_sha1: "length (sha1 m) = 20"
proof -
  have "length (sha1_out s) = 20" for s
    by (induction s rule: sha1_out.induct) (simp add: word_bytes_def length_nat_to_bytes)
  then show ?thesis by (simp add: sha1_def)
qed

lemma length_sha2_out: "length (sha2_out n s) = 8 * n"
  by (induction n s rule: sha2_out.induct) (simp add: word_bytes_def length_nat_to_bytes)

lemma length_hash_digest:
  "length (hash_digest h m) = (case h of Hash_sha1 \<Rightarrow> 20 | Hash_sha256 \<Rightarrow> 32 | Hash_sha512 \<Rightarrow> 64)"
  by (cases h) (simp_all add: length_sha1 sha256_def sha512_def length_sha2_out)

lemma hmac_digest_is_hash:
  "\<exists>m. hmac_digest h key msg = hash_digest h m"
  by (auto simp: hmac_digest_def Let_def)

lemma uint_byte_le: "uint (x :: byte) \<le> 255"
  using uint_lt2p [of x] by simp

lemma uint_and_127_le: "uint ((x :: byte) AND 0x7F) \<le> 127"
  using word_and_le1 [of x "0x7F"] by (simp add: word_le_def)

lemma unat_and_15_le: "unat ((x :: byte) AND 0x0F) \<le> 15"
  using word_and_le1 [of x "0x0F"] by (simp add: word_le_nat_alt)

lemma from_bytes_4:
  "from_bytes [a, b, c, d] = ((uint a * 256 + uint b) * 256 + uint c) * 256 + uint d"
  by (simp add: from_bytes_def)

lemma list_of_length_4: "length xs = 4 \<Longrightarrow> \<exists>a b c d. xs = [a, b, c, d]"
  by (auto simp: eval_nat_numeral length_Suc_conv)

lemma dynamic_truncate_in_bounds:
  assumes len: "20 \<le> length digest"
  shows "length (take 4 (drop (unat (last digest AND 0x0F)) digest)) = 4"
    and "\<exists>n. dynamic_truncate digest = Inr n \<and> 0 \<le> n \<and> n < 2 ^ 31"
proof -
  let ?base = "take 4 (drop (unat (last digest AND 0x0F)) digest)"
  from len unat_and_15_le [of "last digest"] show l4: "length ?base = 4" by simp
  then obtain a b c d where base: "?base = [a, b, c, d]"
    using list_of_length_4 by blast
  have ne: "digest \<noteq> []" using len by auto
  have "dynamic_truncate digest = Inr (from_bytes [a AND 0x7F, b, c, d])"
    unfolding dynamic_truncate_def Let_def base using ne by simp
  moreover have "0 \<le> from_bytes [a AND 0x7F, b, c, d]"
    by (simp add: from_bytes_4)
  moreover have "from_bytes [a AND 0x7F, b, c, d] < 2 ^ 31"
    using uint_and_127_le [of a] uint_byte_le [of b] uint_byte_le [of c] uint_byte_le [of d]
    by (simp add: from_bytes_4)
  ultimately show "\<exists>n. dynamic_truncate digest = Inr n \<and> 0 \<le> n \<and> n < 2 ^ 31" by blast
qed

lemma length_str_of_nat: "n < 10 ^ w \<Longrightarrow> 0 < w \<Longrightarrow> length (str_of_nat n) \<le> w"
proof (induction n arbitrary: w rule: str_of_nat.induct)
  case (1 n)
  show ?case
  proof (cases "n < 10")
    case True
    with "1.prems" show ?thesis by (simp add: str_of_nat.simps [of n])
  next
    case False
    with "1.prems" obtain w' where w: "w = Suc w'" by (cases w) auto
    from False "1.prems" w have "0 < w'" by (cases w') auto
    moreover from "1.prems" w have "n div 10 < 10 ^ w'" by (simp add: less_mult_imp_div_less mult.commute)
    ultimately have "length (str_of_nat (n div 10)) \<le> w'" using "1.IH" [OF False] by blast
    with False w show ?thesis by (simp add: str_of_nat.simps [of n])
  qed
qed

lemma length_format_code:
  assumes "digits \<in> {6, 7, 8}"
  shows "int (length (format_code code_int digits)) = digits"
proof -
  have pos: "0 < nat digits" using assms by auto
  have "code_int mod 10 ^ nat digits < 10 ^ nat digits" by simp
  moreover have "0 \<le> code_int mod 10 ^ nat digits" by simp
  ultimately have "nat (code_int mod 10 ^ nat digits) < 10 ^ nat digits"
    by (metis nat_less_iff nat_int of_nat_numeral of_nat_power zless_nat_conj zero_less_numeral zero_less_power)
  from length_str_of_nat [OF this pos]
  have "length (format_code code_int digits) = nat digits"
    by (simp add: format_code_def zfill_def)
  with assms show ?thesis by auto
qed

lemma decimal_value_ascii_digit:
  "48 \<le> c \<Longrightarrow> c \<le> 57 \<Longrightarrow> decimal_value decimal_ranges c = Some (c - 48)"
  by (simp add: decimal_ranges_def)

lemma digits_value_snoc:
  "digits_value acc (cs @ [c]) =
     (case digits_value acc cs of
        None \<Rightarrow> None
      | Some a \<Rightarrow> (case decimal_value decimal_ranges c of
                    None \<Rightarrow> None
                  | Some d \<Rightarrow> Some (10 * a + int d)))"
  by (induction cs arbitrary: acc) (auto split: option.splits)

lemma str_of_nat_ascii_digits: "list_all (\<lambda>c. 48 \<le> c \<and> c \<le> 57) (str_of_nat n)"
proof (induction n rule: str_of_nat.induct)
  case (1 n)
  show ?case
  proof (cases "n < 10")
    case True
    then show ?thesis by (simp add: str_of_nat.simps [of n])
  next
    case False
    with 1 show ?thesis by (simp add: str_of_nat.simps [of n])
  qed
qed

lemma digits_value_str_of_nat: "digits_value 0 (str_of_nat n) = Some (int n)"
proof (induction n rule: str_of_nat.induct)
  case (1 n)
  show ?case
  proof (cases "n < 10")
    case True
    then show ?thesis
      by (simp add: str_of_nat.simps [of n] decimal_value_ascii_digit)
  next
    case False
    have d: "decimal_value decimal_ranges (48 + n mod 10) = Some (n mod 10)"
      using decimal_value_ascii_digit [of "48 + n mod 10"] by simp
    from False 1 have i: "digits_value 0 (str_of_nat (n div 10)) = Some (int (n div 10))" by simp
    have e: "str_of_nat n = str_of_nat (n div 10) @ [48 + n mod 10]"
      using False by (simp add: str_of_nat.simps [of n])
    have a: "10 * int (n div 10) + int (n mod 10) = int n" by presburger
    show ?thesis unfolding e digits_value_snoc i d using a by simp
  qed
qed

lemma digits_value_zeros: "digits_value 0 (replicate k 48 @ s) = digits_value 0 s"
  by (induction k) (simp_all add: decimal_value_ascii_digit)

lemma format_code_zero_padded:
  "format_code code_int digits =
     replicate (nat digits - length (str_of_nat (nat (code_int mod 10 ^ nat digits)))) 48 @
     str_of_nat (nat (code_int mod 10 ^ nat digits))"
  by (simp add: format_code_def zfill_def)

lemma format_code_ascii_digits:
  "list_all (\<lambda>c. 48 \<le> c \<and> c \<le> 57) (format_code code_int digits)"
  using str_of_nat_ascii_digits [of "nat (code_int mod 10 ^ nat digits)"]
  by (auto simp: format_code_def zfill_def list_all_iff)

lemma format_code_value:
  "digits_value 0 (format_code code_int digits) = Some (code_int mod 10 ^ nat digits)"
  by (simp add: format_code_def zfill_def digits_value_zeros digits_value_str_of_nat)

lemma get_totp_code_params:
  assumes "urlparse lib url = Inr parsed"
    and "totp_params parsed = Inr (secret, h, digits, per, counter)"
  shows "get_totp_code lib url clock =
     (if 0 < counter then (totp_generate counter secret h digits per, clock)
      else (totp_generate (shd clock) secret h digits per, stl clock))"
  using assms by (simp add: get_totp_code_def)

lemma get_totp_code_Inl:
  "urlparse lib url = Inl e \<Longrightarrow> get_totp_code lib url clock = (Inl e, clock)"
  "urlparse lib url = Inr parsed \<Longrightarrow> totp_params parsed = Inl e \<Longrightarrow> get_totp_code lib url clock = (Inl e, clock)"
  by (simp_all add: get_totp_code_def)

subsection \<open>Rules for evaluating the model on concrete input\<close>

text \<open>
  Recursion over a numeral is unfolded one step at a time, and the words of SHA-1 are
  kept reduced modulo \<open>2^32\<close> after every operation.
\<close>

lemma nat_to_bytes_numeral:
  "nat_to_bytes (numeral k) v = nat_to_bytes (pred_numeral k) (v div 256) @ [word_of_nat (v mod 256)]"
  by (simp only: numeral_eq_Suc nat_to_bytes.simps)

lemma replicate_numeral_eval: "replicate (numeral k) x = x # replicate (pred_numeral k) x"
  by (simp only: numeral_eq_Suc replicate.simps)

lemma sha1_schedule_numeral:
  "sha1_schedule (numeral k) ws =
     sha1_schedule (pred_numeral k) (rotl 1 (ws ! 2 XOR ws ! 7 XOR ws ! 13 XOR ws ! 15) # ws)"
  by (simp only: numeral_eq_Suc sha1_schedule.simps)

lemma rotl32_eval: "rotl n (x :: w32) = take_bit 32 (push_bit n x OR drop_bit (32 - n) x)"
  by (simp add: rotl_def take_bit_word_eq_self)

lemma sha1_rounds_eval:
  "sha1_rounds f k (w # ws) (a, b, c, d, e) =
     sha1_rounds f k ws (take_bit 32 (rotl 5 a + f b c d + e + k + w), a, rotl 30 b, c, d)"
  by (simp add: take_bit_word_eq_self)

lemma sha1_add_eval:
  "sha1_add (a, b, c, d, e) (a', b', c', d', e') =
     (take_bit 32 (a + a'), take_bit 32 (b + b'), take_bit 32 (c + c'), take_bit 32 (d + d'),
      take_bit 32 (e + e'))"
  by (simp add: take_bit_word_eq_self)

lemma bit_length_eval:
  "bit_length 0 = 0" "bit_length (Suc 0) = 1" "bit_length 1 = 1"
  "bit_length (numeral k) = Suc (bit_length (numeral k div 2))"
  by (simp_all add: bit_length.simps [of 0] bit_length.simps [of "Suc 0"]
       bit_length.simps [of 1] bit_length.simps [of "numeral k"])

lemma str_of_nat_eval:
  "str_of_nat 0 = [48]" "str_of_nat (Suc 0) = [49]" "str_of_nat 1 = [49]"
  "str_of_nat (numeral k) =
     (if numeral k < (10::nat) then [48 + numeral k]
      else str_of_nat (numeral k div 10) @ [48 + numeral k mod 10])"
  by (simp_all add: str_of_nat.simps [of 0] str_of_nat.simps [of "Suc 0"]
       str_of_nat.simps [of 1] str_of_nat.simps [of "numeral k"])

lemma chunk_list_eval:
  "chunk_list n [] = []"
  "chunk_list (numeral k) (x # xs) =
     take (numeral k) (x # xs) # chunk_list (numeral k) (drop (numeral k) (x # xs))"
  by (simp_all add: chunk_list.simps [of n "[]"] chunk_list.simps [of "numeral k" "x # xs"])

lemmas str_eval = str_def
lemmas url_eval = str_def urlparse_def bracketed_host_def uses_params_def splitparams_def
  split_scheme_def is_ascii_alpha_def is_scheme_char_def
  ascii_lower_def is_netloc_delim_def Let_def
lemmas qsl_eval = parse_qsl_def unquote_plus_def unquote_def hex_value_def utf8_decode_def
  start_step_def
lemmas num_eval = positive_int_or_def isnumeric_def numeric_ranges_def py_int_def decimal_ranges_def
  Let_def
lemmas upper_eval = upper_def upper_char_def upper_special_def upper_ranges_def select_hash_def
lemmas b32_eval = b32decode_def pad_secret_def ascii_upper_def rstrip_def b32_value_def
  nat_to_bytes_numeral replicate_numeral_eval Let_def
lemmas div_eval = truediv_def double_exponent_def round_half_even_def bit_length_eval
  int_of_float_def to_bytes8_def nat_to_bytes_numeral Let_def
lemmas trunc_eval = dynamic_truncate_def from_bytes_def format_code_def zfill_def str_of_nat_eval
  replicate_numeral_eval Let_def
lemmas sha1_eval = sha1_def sha1_compress_def md_pad_def words_of_def bytes_to_nat_def
  word_bytes_def chunk_list_eval Ch_def Maj_def Parity_def nat_to_bytes_numeral
  replicate_numeral_eval sha1_schedule_numeral rotl32_eval sha1_rounds_eval sha1_add_eval Let_def
lemmas hmac_eval = hmac_digest_def Let_def replicate_numeral_eval

lemmas get_eval = get_totp_code_def totp_params_def url_eval qsl_eval num_eval upper_eval

subsection \<open>The test vector of RFC 6238, evaluated\<close>

text \<open>
  HMAC-SHA-1 of the time step 1 under the key of RFC 6238 takes four applications of
  the compression function: two for the inner hash and two for the outer one.
\<close>

lemma rfc6238_ipad_block:
  "sha1_compress
     (1732584193, 4023233417, 2562383102, 271733878, 3285377520)
     [7, 4, 5, 2, 3, 0, 1, 14, 15, 6, 7, 4, 5, 2, 3, 0, 1, 14, 15, 6, 54, 54, 54, 54, 54,
     54, 54, 54, 54, 54, 54, 54, 54, 54, 54, 54, 54, 54, 54, 54, 54, 54, 54, 54, 54,
     54, 54, 54, 54, 54, 54, 54, 54, 54, 54, 54, 54, 54, 54, 54, 54, 54, 54, 54] =
   (3418885260, 4120502956, 3183003698, 3667247555, 4167577637)"
  by (simp add: sha1_eval del: sha1_rounds.simps(2) sha1_add.simps)

lemma rfc6238_inner_block:
  "sha1_compress
     (3418885260, 4120502956, 3183003698, 3667247555, 4167577637)
     [0, 0, 0, 0, 0, 0, 0, 1, 128, 0, 0, 0, 0, 0, 0, 0, 0, 0, 0, 0, 0, 0, 0, 0, 0, 0, 0, 0,
     0, 0, 0, 0, 0, 0, 0, 0, 0, 0, 0, 0, 0, 0, 0, 0, 0, 0, 0, 0, 0, 0, 0, 0, 0, 0, 0,
     0, 0, 0, 0, 0, 0, 0, 2, 64] =
   (2923006674, 3845772892, 1570953884, 2321626177, 2537110156)"
  by (simp add: sha1_eval del: sha1_rounds.simps(2) sha1_add.simps)

lemma rfc6238_opad_block:
  "sha1_compress
     (1732584193, 4023233417, 2562383102, 271733878, 3285377520)
     [109, 110, 111, 104, 105, 106, 107, 100, 101, 108, 109, 110, 111, 104, 105, 106, 107,
     100, 101, 108, 92, 92, 92, 92, 92, 92, 92, 92, 92, 92, 92, 92, 92, 92, 92, 92, 92,
     92, 92, 92, 92, 92, 92, 92, 92, 92, 92, 92, 92, 92, 92, 92, 92, 92, 92, 92, 92,
     92, 92, 92, 92, 92, 92, 92] =
   (2562571725, 1491106814, 2908544490, 985678603, 4262488101)"
  by (simp add: sha1_eval del: sha1_rounds.simps(2) sha1_add.simps)

lemma rfc6238_outer_block:
  "sha1_compress
     (2562571725, 1491106814, 2908544490, 985678603, 4262488101)
     [174, 57, 138, 210, 229, 57, 214, 92, 93, 162, 218, 156, 138, 97, 52, 65, 151, 57, 58,
     140, 128, 0, 0, 0, 0, 0, 0, 0, 0, 0, 0, 0, 0, 0, 0, 0, 0, 0, 0, 0, 0, 0, 0, 0, 0,
     0, 0, 0, 0, 0, 0, 0, 0, 0, 0, 0, 0, 0, 0, 0, 0, 0, 2, 160] =
   (1973717529, 3570131200, 1682868929, 964618868, 2049782699)"
  by (simp add: sha1_eval del: sha1_rounds.simps(2) sha1_add.simps)

lemma rfc6238_hmac:
  "hmac_digest Hash_sha1 [49, 50, 51, 52, 53, 54, 55, 56, 57, 48, 49, 50, 51, 52, 53, 54, 55, 56, 57, 48]
     [0, 0, 0, 0, 0, 0, 0, 1] =
   [117, 164, 138, 25, 212, 203, 225, 0, 100, 78, 138, 193, 57, 126, 234, 116, 122, 45,
     51, 171]"
  unfolding hmac_digest_def Let_def
  by (simp add: replicate_numeral_eval sha1_def md_pad_def chunk_list_eval
       nat_to_bytes_numeral word_bytes_def
       rfc6238_ipad_block rfc6238_inner_block rfc6238_opad_block rfc6238_outer_block)

lemma rfc6238_generate:
  "totp_generate 59 rfc6238_secret Hash_sha1 8 30 =
     Inr \<lparr>code = str ''94287082'', time_left = 1, period = 30\<rparr>"
  unfolding totp_generate_def rfc6238_secret_def
  by (simp add: str_eval div_eval b32_eval trunc_eval rfc6238_hmac)

lemma rfc6238_counter_parse:
  "\<exists>parsed. urlparse lib rfc6238_counter_uri = Inr parsed \<and>
     totp_params parsed = Inr (rfc6238_secret, Hash_sha1, 8, 30, 59)"
  unfolding rfc6238_counter_uri_def rfc6238_secret_def
  by (simp add: url_eval totp_params_def qsl_eval num_eval upper_eval)

lemma rfc6238_clock_parse:
  "\<exists>parsed. urlparse lib rfc6238_clock_uri = Inr parsed \<and>
     totp_params parsed = Inr (rfc6238_secret, Hash_sha1, 8, 30, 0)"
  unfolding rfc6238_clock_uri_def rfc6238_secret_def
  by (simp add: url_eval totp_params_def qsl_eval num_eval upper_eval)

lemma rfc6238_counter_result:
  "get_totp_code lib rfc6238_counter_uri clock =
     (Inr \<lparr>code = str ''94287082'', time_left = 1, period = 30\<rparr>, clock)"
  using rfc6238_counter_parse [of lib] by (auto simp: get_totp_code_def rfc6238_generate)

lemma rfc6238_clock_result:
  "shd clock = 59 \<Longrightarrow> get_totp_code lib rfc6238_clock_uri clock =
     (Inr \<lparr>code = str ''94287082'', time_left = 1, period = 30\<rparr>, stl clock)"
  using rfc6238_clock_parse [of lib] by (auto simp: get_totp_code_def rfc6238_generate)

text \<open>
  The same key and parameters at Unix time 1111111109, the second instant of the table of
  RFC 6238: the time step is 37037036 and the code, \<^verbatim>\<open>07081804\<close>, begins with a zero.
\<close>

lemma rfc6238_inner_block_1111111109:
  "sha1_compress
     (3418885260, 4120502956, 3183003698, 3667247555, 4167577637)
     [0, 0, 0, 0, 2, 53, 35, 236, 128, 0, 0, 0, 0, 0, 0, 0, 0, 0, 0, 0, 0, 0, 0, 0, 0, 0, 0,
     0, 0, 0, 0, 0, 0, 0, 0, 0, 0, 0, 0, 0, 0, 0, 0, 0, 0, 0, 0, 0, 0, 0, 0, 0, 0, 0,
     0, 0, 0, 0, 0, 0, 0, 0, 2, 64] =
   (2798053421, 359996874, 3251026455, 532984307, 3507203994)"
  by (simp add: sha1_eval del: sha1_rounds.simps(2) sha1_add.simps)

lemma rfc6238_outer_block_1111111109:
  "sha1_compress
     (2562571725, 1491106814, 2908544490, 985678603, 4262488101)
     [166, 198, 232, 45, 21, 117, 29, 202, 193, 198, 186, 23, 31, 196, 177, 243, 209, 11,
     175, 154, 128, 0, 0, 0, 0, 0, 0, 0, 0, 0, 0, 0, 0, 0, 0, 0, 0, 0, 0, 0, 0, 0, 0,
     0, 0, 0, 0, 0, 0, 0, 0, 0, 0, 0, 0, 0, 0, 0, 0, 0, 0, 0, 2, 160] =
   (663487205, 907081804, 1086165301, 2899578896, 306252308)"
  by (simp add: sha1_eval del: sha1_rounds.simps(2) sha1_add.simps)

lemma rfc6238_hmac_1111111109:
  "hmac_digest Hash_sha1 [49, 50, 51, 52, 53, 54, 55, 56, 57, 48, 49, 50, 51, 52, 53, 54, 55, 56, 57, 48]
     [0, 0, 0, 0, 2, 53, 35, 236] =
   [39, 140, 2, 229, 54, 16, 248, 76, 64, 189, 145, 53, 172, 212, 16, 16, 18, 65, 10, 20]"
  unfolding hmac_digest_def Let_def
  by (simp add: replicate_numeral_eval sha1_def md_pad_def chunk_list_eval
       nat_to_bytes_numeral word_bytes_def
       rfc6238_ipad_block rfc6238_inner_block_1111111109 rfc6238_opad_block
       rfc6238_outer_block_1111111109)

lemma rfc6238_generate_1111111109:
  "totp_generate 1111111109 rfc6238_secret Hash_sha1 8 30 =
     Inr \<lparr>code = str ''07081804'', time_left = 1, period = 30\<rparr>"
  unfolding totp_generate_def rfc6238_secret_def
  by (simp add: str_eval div_eval b32_eval trunc_eval rfc6238_hmac_1111111109)

lemma rfc6238_clock_result_1111111109:
  "shd clock = 1111111109 \<Longrightarrow> get_totp_code lib rfc6238_clock_uri clock =
     (Inr \<lparr>code = str ''07081804'', time_left = 1, period = 30\<rparr>, stl clock)"
  using rfc6238_clock_parse [of lib]
  by (auto simp: get_totp_code_def rfc6238_generate_1111111109)

subsection \<open>Decoding the secret, and messages\<close>

lemma pad_secret_unpadded:
  "length secret mod 8 \<in> {1, 3, 6} \<Longrightarrow> pad_secret secret = secret"
  by (auto simp: pad_secret_def)

lemma b32decode_bad_length:
  "length s mod 8 \<noteq> 0 \<Longrightarrow>
   b32decode s =
     Inl (if list_all (\<lambda>c. c < 128) s then BinasciiError (str ''Incorrect padding'')
          else ValueError (str ''string argument should contain only ASCII characters''))"
  by (simp add: b32decode_def)

lemma b32_valid_char:
  assumes "b32_value (ascii_upper c) \<noteq> None"
  shows "c < 128" and "ascii_upper c \<noteq> 61" and "b32_value (ascii_upper c) \<noteq> None"
  using assms by (auto simp: b32_value_def ascii_upper_def split: if_splits)

lemma quantum_acc_valid:
  "list_all (\<lambda>c. b32_value c \<noteq> None) cs \<Longrightarrow> \<exists>v. quantum_acc acc cs = Some v"
  by (induction cs arbitrary: acc) auto

lemma b32_quanta_valid:
  "list_all (\<lambda>c. b32_value c \<noteq> None) s \<Longrightarrow> \<exists>r. b32_quanta s = Some r"
proof (induction s rule: b32_quanta.induct)
  case 1
  show ?case by simp
next
  case (2 c cs)
  have t: "list_all (\<lambda>c. b32_value c \<noteq> None) (take 8 (c # cs))"
    using "2.prems" by (auto simp: list_all_iff dest: in_set_takeD)
  have d: "list_all (\<lambda>c. b32_value c \<noteq> None) (drop 8 (c # cs))"
    using "2.prems" by (auto simp: list_all_iff dest: in_set_dropD)
  from quantum_acc_valid [OF t] obtain acc where a: "quantum_acc 0 (take 8 (c # cs)) = Some acc"
    by blast
  from "2.IH" [OF a d] obtain r where "b32_quanta (drop 8 (c # cs)) = Some r" by blast
  with a show ?case by (cases r) (simp del: take_Cons_numeral drop_Cons_numeral)
qed

lemma rstrip_padding:
  assumes "list_all (\<lambda>c. c \<noteq> ch) s"
  shows "rstrip ch (s @ replicate k ch) = s"
proof -
  have "dropWhile (\<lambda>c. c = ch) (replicate k ch @ rev s) = dropWhile (\<lambda>c. c = ch) (rev s)"
    by (induction k) simp_all
  moreover have "dropWhile (\<lambda>c. c = ch) (rev s) = rev s"
    using assms by (cases "rev s") (auto simp: list_all_iff)
  ultimately show ?thesis by (simp add: rstrip_def)
qed

lemma b32decode_valid:
  assumes v: "list_all (\<lambda>c. b32_value (ascii_upper c) \<noteq> None) secret"
    and r: "length secret mod 8 \<in> {0, 2, 4, 5, 7}"
  shows "\<exists>key. b32decode (pad_secret secret) = Inr key"
proof -
  define k where "k = (if length secret mod 8 = 0 then 0 else 8 - length secret mod 8)"
  have pad: "pad_secret secret = secret @ replicate k 61"
    using r by (auto simp: pad_secret_def k_def)
  have kset: "k \<in> {0, 1, 3, 4, 6}" using r by (auto simp: k_def)
  have len: "length (secret @ replicate k 61) mod 8 = 0"
    using r by (auto simp: k_def; presburger)
  have ascii: "list_all (\<lambda>c. c < 128) (secret @ replicate k 61)"
    using v b32_valid_char(1) by (auto simp: list_all_iff)
  have up: "map ascii_upper (secret @ replicate k 61) = map ascii_upper secret @ replicate k 61"
    by (simp add: ascii_upper_def)
  have ne: "list_all (\<lambda>c. c \<noteq> 61) (map ascii_upper secret)"
    using v b32_valid_char(2) by (auto simp: list_all_iff)
  have strip: "rstrip 61 (map ascii_upper secret @ replicate k 61) = map ascii_upper secret"
    using ne by (rule rstrip_padding)
  have "list_all (\<lambda>c. b32_value c \<noteq> None) (map ascii_upper secret)"
    using v by (auto simp: list_all_iff)
  from b32_quanta_valid [OF this] obtain decoded acc where
    q: "b32_quanta (map ascii_upper secret) = Some (decoded, acc)" by (cases) auto
  show ?thesis
    unfolding pad b32decode_def Let_def up strip
    using ascii len q kset by auto
qed

lemma non_base32_secret_result:
  "get_totp_code lib non_base32_secret_uri clock =
     (Inl (BinasciiError (str ''Non-base32 digit found'')), clock)"
  unfolding non_base32_secret_uri_def
  by (simp add: get_eval totp_generate_def div_eval b32_eval)

lemma short_non_base32_secret_result:
  "get_totp_code lib short_non_base32_secret_uri clock =
     (Inl (BinasciiError (str ''Non-base32 digit found'')), clock)"
  unfolding short_non_base32_secret_uri_def
  by (simp add: get_eval totp_generate_def div_eval b32_eval)

lemma startswith_append: "startswith (sub @ post) sub"
  by (induction sub) simp_all

lemma contains_append: "contains (pre @ sub @ post) sub"
proof (induction pre)
  case Nil
  show ?case by (cases "sub @ post") (use startswith_append [of sub post] in auto)
next
  case (Cons c pre)
  then show ?case by simp
qed

subsection \<open>The loop over the query string\<close>

text \<open>
  The loop raises exactly when some occurrence of \<^verbatim>\<open>digits\<close>, \<^verbatim>\<open>period\<close> or
  \<^verbatim>\<open>counter\<close> has a value that raises; when it does not raise, every variable has the
  value of the last occurrence that passes (for \<^verbatim>\<open>secret\<close> and \<^verbatim>\<open>algorithm\<close>: of the
  last occurrence), and its initial value when there is none.
\<close>

lemma positive_int_or_eq:
  "positive_int_or v cur =
     (if raises v then py_int v else Inr (if passes v then int_value v else cur))"
  by (auto simp: positive_int_or_def raises_def passes_def int_value_def split: sum.splits)

lemma raises_Inl: "raises v \<Longrightarrow> \<exists>e. py_int v = Inl e"
  by (auto simp: raises_def split: sum.splits)

lemma last_passing_Cons:
  "last_passing key ((k, v) # kvs) cur =
     last_passing key kvs (if k = key \<and> passes v then int_value v else cur)"
  by (auto simp: last_passing_def split: list.splits)

lemma last_value_Cons:
  "(case last_value key ((k, v) # kvs) of None \<Rightarrow> cur | Some x \<Rightarrow> Some x) =
   (case last_value key kvs of None \<Rightarrow> (if k = key then Some v else cur) | Some x \<Rightarrow> Some x)"
  by (auto simp: last_value_def split: list.splits)

lemma key_names_distinct:
  "str ''secret'' \<noteq> str ''algorithm''" "str ''secret'' \<noteq> str ''digits''"
  "str ''secret'' \<noteq> str ''period''" "str ''secret'' \<noteq> str ''counter''"
  "str ''algorithm'' \<noteq> str ''digits''" "str ''algorithm'' \<noteq> str ''period''"
  "str ''algorithm'' \<noteq> str ''counter''" "str ''digits'' \<noteq> str ''period''"
  "str ''digits'' \<noteq> str ''counter''" "str ''period'' \<noteq> str ''counter''"
  by (simp_all add: str_def)

lemma query_loop_last:
  assumes "query_loop kvs (s, a, d, p, c) = Inr (s', a', d', p', c')"
  shows "s' = (case last_value (str ''secret'') kvs of None \<Rightarrow> s | Some v \<Rightarrow> Some v) \<and>
         Some a' = (case last_value (str ''algorithm'') kvs of None \<Rightarrow> Some a | Some v \<Rightarrow> Some v) \<and>
         d' = last_passing (str ''digits'') kvs d \<and>
         p' = last_passing (str ''period'') kvs p \<and>
         c' = last_passing (str ''counter'') kvs c"
  using assms
proof (induction kvs arbitrary: s a d p c)
  case Nil
  then show ?case by (simp add: last_value_def last_passing_def)
next
  case (Cons kv kvs)
  obtain k v where kv: "kv = (k, v)" by (cases kv)
  note d = key_names_distinct key_names_distinct [symmetric]
  consider "k = str ''secret''" | "k = str ''algorithm''" | "k = str ''digits''"
    | "k = str ''period''" | "k = str ''counter''"
    | "k \<noteq> str ''secret''" "k \<noteq> str ''algorithm''" "k \<noteq> str ''digits''"
      "k \<noteq> str ''period''" "k \<noteq> str ''counter''" by blast
  then show ?case
  proof cases
    case 1
    with Cons.prems kv have "query_loop kvs (Some v, a, d, p, c) = Inr (s', a', d', p', c')"
      by simp
    from Cons.IH [OF this] 1 show ?thesis
      unfolding kv last_passing_Cons
      using last_value_Cons [where key = "str ''secret''" and k = k and v = v and kvs = kvs and cur = s]
            last_value_Cons [where key = "str ''algorithm''" and k = k and v = v and kvs = kvs and cur = "Some a"]
      by (simp add: d)
  next
    case 2
    with Cons.prems kv have "query_loop kvs (s, v, d, p, c) = Inr (s', a', d', p', c')"
      by (simp add: d)
    from Cons.IH [OF this] 2 show ?thesis
      unfolding kv last_passing_Cons
      using last_value_Cons [where key = "str ''secret''" and k = k and v = v and kvs = kvs and cur = s]
            last_value_Cons [where key = "str ''algorithm''" and k = k and v = v and kvs = kvs and cur = "Some a"]
      by (simp add: d)
  next
    case 3
    with Cons.prems kv have
      "query_loop kvs (s, a, if passes v then int_value v else d, p, c) = Inr (s', a', d', p', c')"
      by (auto simp: d positive_int_or_eq split: if_splits sum.splits dest: raises_Inl)
    from Cons.IH [OF this] 3 show ?thesis
      unfolding kv last_passing_Cons
      using last_value_Cons [where key = "str ''secret''" and k = k and v = v and kvs = kvs and cur = s]
            last_value_Cons [where key = "str ''algorithm''" and k = k and v = v and kvs = kvs and cur = "Some a"]
      by (simp add: d)
  next
    case 4
    with Cons.prems kv have
      "query_loop kvs (s, a, d, if passes v then int_value v else p, c) = Inr (s', a', d', p', c')"
      by (auto simp: d positive_int_or_eq split: if_splits sum.splits dest: raises_Inl)
    from Cons.IH [OF this] 4 show ?thesis
      unfolding kv last_passing_Cons
      using last_value_Cons [where key = "str ''secret''" and k = k and v = v and kvs = kvs and cur = s]
            last_value_Cons [where key = "str ''algorithm''" and k = k and v = v and kvs = kvs and cur = "Some a"]
      by (simp add: d)
  next
    case 5
    with Cons.prems kv have
      "query_loop kvs (s, a, d, p, if passes v then int_value v else c) = Inr (s', a', d', p', c')"
      by (auto simp: d positive_int_or_eq split: if_splits sum.splits dest: raises_Inl)
    from Cons.IH [OF this] 5 show ?thesis
      unfolding kv last_passing_Cons
      using last_value_Cons [where key = "str ''secret''" and k = k and v = v and kvs = kvs and cur = s]
            last_value_Cons [where key = "str ''algorithm''" and k = k and v = v and kvs = kvs and cur = "Some a"]
      by (simp add: d)
  next
    case 6
    with Cons.prems kv have "query_loop kvs (s, a, d, p, c) = Inr (s', a', d', p', c')"
      by simp
    from Cons.IH [OF this] 6 show ?thesis
      unfolding kv last_passing_Cons
      using last_value_Cons [where key = "str ''secret''" and k = k and v = v and kvs = kvs and cur = s]
            last_value_Cons [where key = "str ''algorithm''" and k = k and v = v and kvs = kvs and cur = "Some a"]
      by simp
  qed
qed

lemma query_loop_raises_iff:
  "(\<exists>e. query_loop kvs vars = Inl e) \<longleftrightarrow>
   list_ex (\<lambda>kv. fst kv \<in> {str ''digits'', str ''period'', str ''counter''} \<and> raises (snd kv)) kvs"
proof (induction kvs arbitrary: vars)
  case Nil
  show ?case by simp
next
  case (Cons kv kvs)
  obtain k v where kv: "kv = (k, v)" by (cases kv)
  obtain s a d p c where vars: "vars = (s, a, d, p, c)" by (cases vars)
  note d = key_names_distinct key_names_distinct [symmetric]
  show ?case
    unfolding kv vars
    by (auto simp: d positive_int_or_eq Cons.IH split: sum.splits dest: raises_Inl)
qed

subsection \<open>True division below \<open>2^53\<close>\<close>

text \<open>
  For a moving factor \<open>0 \<le> a < 2^53\<close> and a positive period the float division followed
  by \<^verbatim>\<open>int\<close> is the exact floor: rounding the quotient to 53 bits cannot reach the next
  integer, because that takes a denominator of at least \<open>2^(k+1)\<close>, where \<open>2^-k\<close> is the
  weight of the last mantissa bit, and then a numerator of at least \<open>2^53\<close>.
\<close>

lemma bit_length_le: "n < 2 ^ j \<Longrightarrow> bit_length n \<le> j"
proof (induction n arbitrary: j rule: bit_length.induct)
  case (1 n)
  show ?case
  proof (cases "n = 0")
    case True
    then show ?thesis by (simp add: bit_length.simps [of 0])
  next
    case False
    with "1.prems" obtain j' where j: "j = Suc j'" by (cases j) auto
    with "1.prems" have "n div 2 < 2 ^ j'" by auto
    from "1.IH" [OF False this] False j show ?thesis by (simp add: bit_length.simps [of n])
  qed
qed

lemma bit_length_gt: "2 ^ j \<le> n \<Longrightarrow> j < bit_length n"
proof (induction n arbitrary: j rule: bit_length.induct)
  case (1 n)
  have "0 < (2::nat) ^ j" by simp
  with "1.prems" have ne: "n \<noteq> 0" by linarith
  show ?case
  proof (cases j)
    case 0
    with ne show ?thesis by (simp add: bit_length.simps [of n])
  next
    case (Suc j')
    with "1.prems" have "2 ^ j' \<le> n div 2" by auto
    from "1.IH" [OF ne this] ne Suc show ?thesis by (simp add: bit_length.simps [of n])
  qed
qed

lemma round_half_even_cases:
  "round_half_even N d = N div d \<or>
   (round_half_even N d = Suc (N div d) \<and> d \<le> 2 * (N mod d))"
  by (auto simp: round_half_even_def)

lemma round_div_exact:
  fixes n d k :: nat
  assumes d: "0 < d" and n: "n < 2 ^ 53"
    and k: "k = 1074 \<or> 52 - (int (bit_length n) - int (bit_length d)) \<le> int k"
  shows "round_half_even (n * 2 ^ k) d div 2 ^ k = n div d"
proof -
  let ?N = "n * 2 ^ k"
  let ?q = "?N div d"
  let ?r = "?N mod d"
  have Q: "?q div 2 ^ k = n div d"
    by (simp add: div_mult2_eq [symmetric])
  from round_half_even_cases [of ?N d] show ?thesis
  proof
    assume "round_half_even ?N d = ?q"
    with Q show ?thesis by simp
  next
    assume up: "round_half_even ?N d = Suc ?q \<and> d \<le> 2 * ?r"
    have "Suc ?q div 2 ^ k = ?q div 2 ^ k"
    proof (rule ccontr)
      assume "Suc ?q div 2 ^ k \<noteq> ?q div 2 ^ k"
      then have "Suc ?q mod 2 ^ k = 0" by (simp add: div_Suc split: if_splits)
      then obtain t where t: "Suc ?q = 2 ^ k * t" by (auto simp: mod_eq_0_iff_dvd dvd_def)
      define s where "s = d - ?r"
      have rd: "?r < d" using d by simp
      then have s: "0 < s" "?r + s = d" by (simp_all add: s_def)
      have nq: "?q * d + ?r = ?N" by (rule div_mult_mod_eq)
      have "Suc ?q * d = ?q * d + (?r + s)" using s(2) by simp
      also have "\<dots> = (?q * d + ?r) + s" by (simp only: add.assoc)
      also have "\<dots> = ?N + s" by (simp only: nq)
      finally have "Suc ?q * d = ?N + s" .
      then have "2 ^ k * (t * d) = 2 ^ k * n + s" using t by (simp add: mult.commute mult.assoc)
      then have "s = 2 ^ k * (t * d) - 2 ^ k * n" by simp
      then have "s = 2 ^ k * (t * d - n)" by (simp add: diff_mult_distrib2)
      then have "(2::nat) ^ k dvd s" by (metis dvd_triv_left)
      with s(1) have sk: "2 ^ k \<le> s" by (rule dvd_imp_le [rotated])
      from up s have "s \<le> ?r" by simp
      with sk s have dk: "2 ^ (k + 1) \<le> d" by simp
      have "?q \<le> ?N div 2 ^ (k + 1)"
        using dk by (intro div_le_mono2) simp_all
      also have "?N div 2 ^ (k + 1) = n div 2"
        by (simp add: div_mult2_eq [symmetric] mult.commute)
      also have "n div 2 < 2 ^ 52" using n by simp
      finally have "?q < 2 ^ 52" .
      moreover have "2 ^ k \<le> Suc ?q" using t by (cases t) simp_all
      ultimately have p: "(2::nat) ^ k \<le> 2 ^ 52" by simp
      have k52: "k \<le> 52"
      proof (rule power_le_imp_le_exp)
        show "(1::nat) < 2" by simp
        show "(2::nat) ^ k \<le> 2 ^ 52" by (fact p)
      qed
      have ln: "bit_length n \<le> 53" using n by (rule bit_length_le)
      have ld: "k + 1 < bit_length d" using dk by (rule bit_length_gt)
      from k k52 ln ld show False by auto
    qed
    with up Q show ?thesis by simp
  qed
qed

lemma double_exponent_props:
  assumes n: "n < 2 ^ 53" and d: "0 < d"
  shows "double_exponent n d \<le> 0"
    and "nat (- double_exponent n d) = 1074 \<or>
         52 - (int (bit_length n) - int (bit_length d)) \<le> int (nat (- double_exponent n d))"
proof -
  have ln: "bit_length n \<le> 53" using n by (rule bit_length_le)
  have "2 ^ 0 \<le> d" using d by simp
  then have ld: "0 < bit_length d" by (rule bit_length_gt)
  from ln ld show "double_exponent n d \<le> 0"
    by (auto simp: double_exponent_def Let_def)
  from ln ld show "nat (- double_exponent n d) = 1074 \<or>
         52 - (int (bit_length n) - int (bit_length d)) \<le> int (nat (- double_exponent n d))"
    by (auto simp: double_exponent_def Let_def max_def)
qed

lemma truediv_exact:
  assumes a: "0 \<le> a" "a < 2 ^ 53" and b: "0 < b"
  shows "\<exists>x. truediv a b = Inr x \<and> int_of_float x = a div b"
proof (cases "a = 0")
  case True
  with b show ?thesis by (simp add: truediv_def int_of_float_def)
next
  case False
  define n where "n = nat a"
  define d where "d = nat b"
  define k where "k = nat (- double_exponent n d)"
  define m where "m = round_half_even (n * 2 ^ k) d"
  have n: "n < 2 ^ 53" "0 < n" "int n = a" using a False by (simp_all add: n_def nat_less_iff)
  have d: "0 < d" "int d = b" using b by (simp_all add: d_def)
  note props = double_exponent_props [OF n(1) d(1)]
  have e: "double_exponent n d = - int k" using props(1) by (simp add: k_def)
  have mk: "m div 2 ^ k = n div d"
    unfolding m_def using d(1) n(1) props(2) [folded k_def] by (rule round_div_exact)
  have "m div 2 ^ k < 2 ^ 53"
    using mk n(1) by (simp add: div_le_dividend [THEN le_less_trans])
  then have "m < 2 ^ 53 * 2 ^ k"
    by (simp add: less_mult_imp_div_less div_less_iff_less_mult)
  then have "m < 2 ^ (53 + k)" by (simp add: power_add)
  then have bm: "bit_length m \<le> 53 + k" by (rule bit_length_le)
  have m_eq: "(if double_exponent n d \<le> 0
               then round_half_even (n * 2 ^ nat (- double_exponent n d)) d
               else round_half_even n (d * 2 ^ nat (double_exponent n d))) = m"
    using props(1) by (simp add: m_def k_def)
  have t: "truediv a b = Inr (int m, - int k)"
    using False b a(1) bm m_eq e
    by (simp add: truediv_def Let_def n_def [symmetric] d_def [symmetric])
  have "int_of_float (int m, - int k) = int (m div 2 ^ k)"
    by (cases "k = 0"; cases "m = 0") (simp_all add: int_of_float_def zdiv_int)
  also have "\<dots> = a div b" using mk n(3) d(2) by (simp add: zdiv_int)
  finally show ?thesis using t by simp
qed

subsection \<open>A quotient beyond the doubles\<close>

text \<open>
  \<open>10^310 / 30\<close> is above the largest double: the division raises \<^verbatim>\<open>OverflowError\<close>,
  and so does \<^verbatim>\<open>get_totp_code\<close> with this counter, before the secret is decoded.
\<close>

lemma bit_length_eq: "2 ^ j \<le> n \<Longrightarrow> n < 2 ^ Suc j \<Longrightarrow> bit_length n = Suc j"
  using bit_length_le [of n "Suc j"] bit_length_gt [of j n] by simp

lemma truediv_overflow:
  "truediv (10 ^ 310) 30 =
     Inl (OverflowError (str ''integer division result too large for a float''))"
proof -
  have b1: "bit_length (nat \<bar>10 ^ 310 :: int\<bar>) = 1030"
    using bit_length_eq [of 1029 "nat \<bar>10 ^ 310 :: int\<bar>"] by simp
  have b2: "bit_length (nat \<bar>30 :: int\<bar>) = 5"
    by (simp add: bit_length_eval)
  have b3: "bit_length 8350701500037387 = 53"
    by (simp add: bit_length_eval)
  show ?thesis
    unfolding truediv_def double_exponent_def Let_def b1 b2
    by (simp add: round_half_even_def b3)
qed

lemma overflow_parse:
  "\<exists>parsed. urlparse lib overflow_counter_uri = Inr parsed \<and>
     totp_params parsed = Inr (str ''JBSWY3DPE'', Hash_sha1, 6, 30, 10 ^ 310)"
  unfolding overflow_counter_uri_def
  by (simp add: url_eval totp_params_def qsl_eval num_eval upper_eval replicate_numeral_eval)

lemma overflow_result:
  "get_totp_code lib overflow_counter_uri clock =
     (Inl (OverflowError (str ''integer division result too large for a float'')), clock)"
proof -
  from overflow_parse [of lib] obtain parsed where
    p: "urlparse lib overflow_counter_uri = Inr parsed"
       "totp_params parsed = Inr (str ''JBSWY3DPE'', Hash_sha1, 6, 30, 10 ^ 310)" by blast
  have pos: "(0::int) < 10 ^ 310" by simp
  show ?thesis
    by (simp only: get_totp_code_def p sum.case prod.case pos if_True totp_generate_def
          truediv_overflow)
qed

section \<open>The claims\<close>

text \<open>
  Claim C1.  For the test vector of RFC 6238 (the base32 encoding of the key
  \<^verbatim>\<open>12345678901234567890\<close>, SHA1, eight digits, moving factor 59) the code is
  \<^verbatim>\<open>94287082\<close>: with \<^verbatim>\<open>counter=59\<close> whatever the clock says, and without a counter when
  the clock reads 59.
\<close>

theorem rfc6238_test_vector:
  "fst (get_totp_code lib
     (str ''otpauth://totp/x?secret=GEZDGNBVGY3TQOJQGEZDGNBVGY3TQOJQ&algorithm=SHA1&digits=8&counter=59'')
     clock) = Inr \<lparr>code = str ''94287082'', time_left = 1, period = 30\<rparr> \<and>
   fst (get_totp_code lib
     (str ''otpauth://totp/x?secret=GEZDGNBVGY3TQOJQGEZDGNBVGY3TQOJQ&algorithm=SHA1&digits=8'')
     (59 ## clock)) = Inr \<lparr>code = str ''94287082'', time_left = 1, period = 30\<rparr>"
  using rfc6238_counter_result [of lib clock] rfc6238_clock_result [where clock = "59 ## clock" and lib = lib]
  unfolding rfc6238_counter_uri_def rfc6238_clock_uri_def by simp

text \<open>
  Claim C2.  The claim is that the time step fed into the HMAC is the exact integer
  \<open>\<lfloor>moving factor / period\<rfloor>\<close> for arbitrarily large counters.  The code computes
  \<^verbatim>\<open>int(tm_base / period)\<close> with a float division, which rounds to 53 bits: at
  \<^verbatim>\<open>counter=9007199254740993\<close> (that is \<open>2^53 + 1\<close>) and \<^verbatim>\<open>period=1\<close> the quotient is the
  double \<open>4503599627370496 * 2^1\<close>, the message is the eight bytes of
  \<open>9007199254740992\<close> and not those of the floor \<open>9007199254740993\<close>.  (Below \<open>2^53\<close>
  the time step is the exact floor: lemma \<open>truediv_exact\<close>.)
\<close>

theorem large_counter_time_step:
  "truediv 9007199254740993 1 = Inr (4503599627370496, 1) \<and>
   int_of_float (4503599627370496, 1) = 9007199254740992 \<and>
   (9007199254740993 :: int) div 1 = 9007199254740993 \<and>
   to_bytes8 9007199254740992 = Inr [0, 32, 0, 0, 0, 0, 0, 0] \<and>
   to_bytes8 9007199254740993 = Inr [0, 32, 0, 0, 0, 0, 0, 1] \<and>
   fst (get_totp_code lib large_counter_uri clock) =
     (case dynamic_truncate
             (hmac_digest Hash_sha1 (map of_char ''12345678901234567890'')
                [0, 32, 0, 0, 0, 0, 0, 0]) of
        Inl e \<Rightarrow> Inl e
      | Inr code_int \<Rightarrow> Inr \<lparr>code = format_code code_int 6, time_left = 1, period = 1\<rparr>)"
  unfolding large_counter_uri_def
  by (simp add: get_eval totp_generate_def div_eval b32_eval cong: sum.case_cong)

text \<open>
  Claim C3.  The claim is that a malformed \<^verbatim>\<open>digits\<close>, \<^verbatim>\<open>period\<close> or \<^verbatim>\<open>counter\<close>
  never raises, non-ASCII numeric characters included.  The guard is
  \<^verbatim>\<open>v.isnumeric()\<close>, which U+00B2 passes, and \<^verbatim>\<open>int(v)\<close> then raises \<^verbatim>\<open>ValueError\<close>:
  \<^verbatim>\<open>get_totp_code\<close> fails on \<^verbatim>\<open>digits=\<close>U+00B2, written as the character or
  percent-encoded.
\<close>

theorem superscript_digits_raise:
  "fst (get_totp_code lib superscript_two_uri clock) =
     Inl (ValueError (str ''invalid literal for int() with base 10: '' @ [39, 178, 39])) \<and>
   fst (get_totp_code lib superscript_two_escaped_uri clock) =
     Inl (ValueError (str ''invalid literal for int() with base 10: '' @ [39, 178, 39]))"
  unfolding superscript_two_uri_def superscript_two_escaped_uri_def
  by (simp add: get_eval)

text \<open>
  Claim C4, as stated, fails: the length of the secret alone does not decide whether
  the decoding succeeds, and the decoding error is not always the one the caller sees.
  The secrets \<^verbatim>\<open>GEZDGNB1\<close> (length 8, remainder 0) and \<^verbatim>\<open>M1\<close> (length 2, remainder 2,
  padded to eight characters) contain the digit 1, which is no base32 character, and
  \<^verbatim>\<open>b32decode\<close> raises \<^verbatim>\<open>binascii.Error\<close> although the padding rule predicts success.
  With the secret \<^verbatim>\<open>JBSWY3DPE\<close> (length 9, remainder 1) and the counter \<open>10^310\<close> the
  division of line 159 raises \<^verbatim>\<open>OverflowError\<close> before the secret is decoded, and this
  is the error the caller sees.
\<close>

theorem padding_rule_counterexample:
  "length (str ''GEZDGNB1'') mod 8 = 0 \<and>
   b32decode (pad_secret (str ''GEZDGNB1'')) =
     Inl (BinasciiError (str ''Non-base32 digit found'')) \<and>
   fst (get_totp_code accepting non_base32_secret_uri (sconst 0)) =
     Inl (BinasciiError (str ''Non-base32 digit found'')) \<and>
   length (str ''M1'') mod 8 = 2 \<and>
   b32decode (pad_secret (str ''M1'')) =
     Inl (BinasciiError (str ''Non-base32 digit found'')) \<and>
   fst (get_totp_code accepting short_non_base32_secret_uri (sconst 0)) =
     Inl (BinasciiError (str ''Non-base32 digit found'')) \<and>
   length (str ''JBSWY3DPE'') mod 8 = 1 \<and>
   fst (get_totp_code accepting overflow_counter_uri (sconst 0)) =
     Inl (OverflowError (str ''integer division result too large for a float''))"
proof -
  have "length (str ''GEZDGNB1'') mod 8 = 0" "length (str ''M1'') mod 8 = 2"
    "length (str ''JBSWY3DPE'') mod 8 = 1"
    by (simp_all add: str_eval)
  moreover have "b32decode (pad_secret (str ''GEZDGNB1'')) =
      Inl (BinasciiError (str ''Non-base32 digit found''))"
    "b32decode (pad_secret (str ''M1'')) =
      Inl (BinasciiError (str ''Non-base32 digit found''))"
    by (simp_all add: str_eval b32_eval)
  ultimately show ?thesis
    by (simp add: non_base32_secret_result short_non_base32_secret_result overflow_result)
qed

text \<open>
  Claim C4, amended.  A secret whose length leaves remainder 1, 3 or 6 modulo 8 is not
  padded and \<^verbatim>\<open>b32decode\<close> fails (with \<^verbatim>\<open>binascii.Error\<close>, or with the \<^verbatim>\<open>ValueError\<close> of
  a non-ASCII secret), and \<^verbatim>\<open>get_totp_code\<close> hands exactly this error to its caller
  once the parameters are valid and the division before it has not raised.  A secret
  whose length leaves remainder 0, 2, 4, 5 or 7 decodes when all its characters are
  base32 characters (in either case).
\<close>

theorem secret_padding_decides_decoding:
  "(length secret mod 8 \<in> {1, 3, 6} \<longrightarrow>
      (\<exists>e. b32decode (pad_secret secret) = Inl e \<and>
         (e = BinasciiError (str ''Incorrect padding'') \<or>
          e = ValueError (str ''string argument should contain only ASCII characters'')) \<and>
         (urlparse lib url = Inr parsed \<and>
          totp_params parsed = Inr (secret, h, digits, per, counter) \<and>
          truediv (if 0 < counter then counter else shd clock) per = Inr tm \<longrightarrow>
          fst (get_totp_code lib url clock) = Inl e))) \<and>
   (length secret mod 8 \<in> {0, 2, 4, 5, 7} \<and>
    list_all (\<lambda>c. b32_value (ascii_upper c) \<noteq> None) secret \<longrightarrow>
      (\<exists>key. b32decode (pad_secret secret) = Inr key))"
proof (intro conjI impI)
  assume l: "length secret mod 8 \<in> {1, 3, 6}"
  then have n: "length secret mod 8 \<noteq> 0" by auto
  let ?e = "if list_all (\<lambda>c. c < 128) secret then BinasciiError (str ''Incorrect padding'')
          else ValueError (str ''string argument should contain only ASCII characters'')"
  have d: "b32decode (pad_secret secret) = Inl ?e"
    using b32decode_bad_length [OF n] pad_secret_unpadded [OF l] by simp
  have "urlparse lib url = Inr parsed \<and>
          totp_params parsed = Inr (secret, h, digits, per, counter) \<and>
          truediv (if 0 < counter then counter else shd clock) per = Inr tm \<longrightarrow>
          fst (get_totp_code lib url clock) = Inl ?e"
    using d by (auto simp: get_totp_code_def totp_generate_def)
  with d show "\<exists>e. b32decode (pad_secret secret) = Inl e \<and>
         (e = BinasciiError (str ''Incorrect padding'') \<or>
          e = ValueError (str ''string argument should contain only ASCII characters'')) \<and>
         (urlparse lib url = Inr parsed \<and>
          totp_params parsed = Inr (secret, h, digits, per, counter) \<and>
          truediv (if 0 < counter then counter else shd clock) per = Inr tm \<longrightarrow>
          fst (get_totp_code lib url clock) = Inl e)"
    by (intro exI [of _ ?e]) auto
next
  assume a: "length secret mod 8 \<in> {0, 2, 4, 5, 7} \<and>
    list_all (\<lambda>c. b32_value (ascii_upper c) \<noteq> None) secret"
  from a have 1: "list_all (\<lambda>c. b32_value (ascii_upper c) \<noteq> None) secret"
    and 2: "length secret mod 8 \<in> {0, 2, 4, 5, 7}" by simp_all
  show "\<exists>key. b32decode (pad_secret secret) = Inr key"
    by (rule b32decode_valid [OF 1 2])
qed

theorem secret_padding_decides_decoding_witness:
  "length (str ''JBSWY3DPE'') mod 8 \<in> {1, 3, 6 :: nat} \<and>
   b32decode (pad_secret (str ''JBSWY3DPE'')) = Inl (BinasciiError (str ''Incorrect padding'')) \<and>
   (\<exists>parsed. urlparse accepting odd_length_secret_uri = Inr parsed \<and>
      totp_params parsed = Inr (str ''JBSWY3DPE'', Hash_sha1, 6, 30, 59)) \<and>
   truediv (if (0::int) < 59 then 59 else shd (sconst 0)) 30 = Inr (8857079267161975, - 52) \<and>
   fst (get_totp_code accepting odd_length_secret_uri (sconst 0)) =
     Inl (BinasciiError (str ''Incorrect padding'')) \<and>
   length (str ''JBSWY3DPEHPK3PX'') mod 8 \<in> {0, 2, 4, 5, 7 :: nat} \<and>
   list_all (\<lambda>c. b32_value (ascii_upper c) \<noteq> None) (str ''JBSWY3DPEHPK3PX'') \<and>
   (\<exists>key. b32decode (pad_secret (str ''JBSWY3DPEHPK3PX'')) = Inr key)"
proof -
  have l: "length (str ''JBSWY3DPE'') mod 8 \<in> {1, 3, 6 :: nat}" by (simp add: str_eval)
  have d: "b32decode (pad_secret (str ''JBSWY3DPE'')) = Inl (BinasciiError (str ''Incorrect padding''))"
    by (simp add: str_eval b32_eval)
  have "\<exists>parsed. urlparse accepting odd_length_secret_uri = Inr parsed \<and>
      totp_params parsed = Inr (str ''JBSWY3DPE'', Hash_sha1, 6, 30, 59)"
    unfolding odd_length_secret_uri_def by (simp add: url_eval totp_params_def qsl_eval num_eval upper_eval)
  then obtain parsed where p: "urlparse accepting odd_length_secret_uri = Inr parsed \<and>
      totp_params parsed = Inr (str ''JBSWY3DPE'', Hash_sha1, 6, 30, 59)" by blast
  have t: "truediv (if (0::int) < 59 then 59 else shd (sconst 0)) 30 = Inr (8857079267161975, - 52)"
    by (simp add: div_eval)
  have l2: "length (str ''JBSWY3DPEHPK3PX'') mod 8 \<in> {0, 2, 4, 5, 7 :: nat} \<and>
   list_all (\<lambda>c. b32_value (ascii_upper c) \<noteq> None) (str ''JBSWY3DPEHPK3PX'')"
    by (simp add: str_eval b32_value_def ascii_upper_def)
  from secret_padding_decides_decoding
         [where secret = "str ''JBSWY3DPE''" and lib = accepting and url = odd_length_secret_uri
             and parsed = parsed and h = Hash_sha1 and digits = 6 and per = 30
             and counter = 59 and clock = "sconst 0" and tm = "(8857079267161975, - 52)",
           THEN conjunct1, rule_format, OF l]
  obtain e where e: "b32decode (pad_secret (str ''JBSWY3DPE'')) = Inl e"
    and imp: "urlparse accepting odd_length_secret_uri = Inr parsed \<and>
      totp_params parsed = Inr (str ''JBSWY3DPE'', Hash_sha1, 6, 30, 59) \<and>
      truediv (if (0::int) < 59 then 59 else shd (sconst 0)) 30 = Inr (8857079267161975, - 52) \<longrightarrow>
      fst (get_totp_code accepting odd_length_secret_uri (sconst 0)) = Inl e"
    by blast
  from e d have "e = BinasciiError (str ''Incorrect padding'')" by simp
  with imp p t have g: "fst (get_totp_code accepting odd_length_secret_uri (sconst 0)) =
     Inl (BinasciiError (str ''Incorrect padding''))" by blast
  from secret_padding_decides_decoding
         [where secret = "str ''JBSWY3DPEHPK3PX''", THEN conjunct2, rule_format, OF l2]
  have k: "\<exists>key. b32decode (pad_secret (str ''JBSWY3DPEHPK3PX'')) = Inr key" .
  from l d p t g l2 k show ?thesis by blast
qed

text \<open>
  Claim C5.  Whenever \<^verbatim>\<open>get_totp_code\<close> returns a result, \<open>1 \<le> time_left \<le> period\<close>; this
  holds with and without a counter, so in particular for every result computed from the
  wall clock.
\<close>

theorem time_left_in_period:
  assumes "get_totp_code lib url clock = (Inr r, clock')"
  shows "1 \<le> time_left r \<and> time_left r \<le> period r"
proof -
  from assms obtain parsed secret h digits per counter tm_base where
    p: "totp_params parsed = Inr (secret, h, digits, per, counter)" and
    g: "totp_generate tm_base secret h digits per = Inr r"
    by (auto simp: get_totp_code_def split: sum.splits prod.splits if_splits)
  from p have "0 < per" by (rule totp_params_Inr)
  then have "0 \<le> tm_base mod per" "tm_base mod per < per" by simp_all
  with totp_generate_Inr(1,2) [OF g] show ?thesis by simp
qed

theorem time_left_in_period_witness:
  "get_totp_code accepting rfc6238_clock_uri (sconst 59) =
     (Inr \<lparr>code = str ''94287082'', time_left = 1, period = 30\<rparr>, sconst 59) \<and>
   1 \<le> time_left \<lparr>code = str ''94287082'', time_left = 1, period = 30\<rparr> \<and>
   time_left \<lparr>code = str ''94287082'', time_left = 1, period = 30\<rparr>
     \<le> period \<lparr>code = str ''94287082'', time_left = 1, period = 30\<rparr>"
proof -
  have h: "get_totp_code accepting rfc6238_clock_uri (sconst 59) =
     (Inr \<lparr>code = str ''94287082'', time_left = 1, period = 30\<rparr>, sconst 59)"
    using rfc6238_clock_result [where clock = "sconst 59" and lib = accepting] by simp
  show ?thesis using h time_left_in_period [OF h] by simp
qed

text \<open>
  Claim C6.  Whenever \<^verbatim>\<open>get_totp_code\<close> returns a result, the code is the decimal
  numeral of the truncated integer modulo \<open>10^digits\<close>, with zeros on the left up to the
  validated value of \<^verbatim>\<open>digits\<close>, which is 6, 7 or 8: its length is \<^verbatim>\<open>digits\<close>, all its
  characters are ASCII digits and the number it denotes is the truncated integer modulo
  \<open>10^digits\<close>.  The truncated integer is that of lines 159 to 172: the dynamic
  truncation of the HMAC of the time step under the decoded secret.  For 42 and six
  digits the code is \<^verbatim>\<open>000042\<close>.
\<close>

theorem code_is_zero_padded:
  assumes "urlparse lib url = Inr parsed"
    and "totp_params parsed = Inr (secret, h, digits, per, counter)"
    and "get_totp_code lib url clock = (Inr r, clock')"
  shows "\<exists>tm key msg code_int.
           truediv (if 0 < counter then counter else shd clock) per = Inr tm \<and>
           b32decode (pad_secret secret) = Inr key \<and>
           to_bytes8 (int_of_float tm) = Inr msg \<and>
           dynamic_truncate (hmac_digest h key msg) = Inr code_int \<and>
           code r =
             replicate (nat digits - length (str_of_nat (nat (code_int mod 10 ^ nat digits)))) 48 @
             str_of_nat (nat (code_int mod 10 ^ nat digits)) \<and>
           int (length (code r)) = digits \<and> digits \<in> {6, 7, 8} \<and>
           list_all (\<lambda>c. 48 \<le> c \<and> c \<le> 57) (code r) \<and>
           digits_value 0 (code r) = Some (code_int mod 10 ^ nat digits) \<and>
           format_code 42 6 = str ''000042''"
proof -
  from assms have "totp_generate (if 0 < counter then counter else shd clock) secret h digits per = Inr r"
    by (auto simp: get_totp_code_params split: if_splits)
  from totp_generate_steps [OF this] obtain tm key msg code_int where
    s: "truediv (if 0 < counter then counter else shd clock) per = Inr tm"
       "b32decode (pad_secret secret) = Inr key"
       "to_bytes8 (int_of_float tm) = Inr msg"
       "dynamic_truncate (hmac_digest h key msg) = Inr code_int"
    and c: "code r = format_code code_int digits" by blast
  have d: "digits \<in> {6, 7, 8}" using assms(2) by (rule totp_params_Inr)
  have l: "int (length (code r)) = digits" using c length_format_code [OF d] by simp
  have p: "code r =
             replicate (nat digits - length (str_of_nat (nat (code_int mod 10 ^ nat digits)))) 48 @
             str_of_nat (nat (code_int mod 10 ^ nat digits))"
    unfolding c by (rule format_code_zero_padded)
  have a: "list_all (\<lambda>c. 48 \<le> c \<and> c \<le> 57) (code r)"
    unfolding c by (rule format_code_ascii_digits)
  have v: "digits_value 0 (code r) = Some (code_int mod 10 ^ nat digits)"
    unfolding c by (rule format_code_value)
  have x: "format_code 42 6 = str ''000042''"
    by (simp add: str_eval trunc_eval)
  from s p l d a v x show ?thesis by blast
qed

theorem code_is_zero_padded_witness:
  "\<exists>parsed. urlparse accepting rfc6238_clock_uri = Inr parsed \<and>
     totp_params parsed = Inr (rfc6238_secret, Hash_sha1, 8, 30, 0) \<and>
     get_totp_code accepting rfc6238_clock_uri (sconst 1111111109) =
       (Inr \<lparr>code = str ''07081804'', time_left = 1, period = 30\<rparr>, sconst 1111111109) \<and>
     truediv (if (0::int) < 0 then 0 else shd (sconst 1111111109)) 30 =
       Inr (4971026953518012, - 27) \<and>
     b32decode (pad_secret rfc6238_secret) =
       Inr [49, 50, 51, 52, 53, 54, 55, 56, 57, 48, 49, 50, 51, 52, 53, 54, 55, 56, 57, 48] \<and>
     to_bytes8 (int_of_float (4971026953518012, - 27)) = Inr [0, 0, 0, 0, 2, 53, 35, 236] \<and>
     dynamic_truncate
       (hmac_digest Hash_sha1
          [49, 50, 51, 52, 53, 54, 55, 56, 57, 48, 49, 50, 51, 52, 53, 54, 55, 56, 57, 48]
          [0, 0, 0, 0, 2, 53, 35, 236]) = Inr 907081804 \<and>
     str_of_nat (nat (907081804 mod 10 ^ nat 8)) = str ''7081804'' \<and>
     code \<lparr>code = str ''07081804'', time_left = 1, period = 30\<rparr> =
       replicate (nat 8 - length (str ''7081804'')) 48 @ str ''7081804'' \<and>
     replicate (nat 8 - length (str ''7081804'')) 48 = str ''0'' \<and>
     int (length (code \<lparr>code = str ''07081804'', time_left = 1, period = 30\<rparr>)) = 8 \<and>
     digits_value 0 (code \<lparr>code = str ''07081804'', time_left = 1, period = 30\<rparr>) =
       Some (907081804 mod 10 ^ nat 8)"
proof -
  let ?r = "\<lparr>code = str ''07081804'', time_left = 1, period = 30\<rparr>"
  let ?key = "[49, 50, 51, 52, 53, 54, 55, 56, 57, 48, 49, 50, 51, 52, 53, 54, 55, 56, 57, 48] :: bytes"
  from rfc6238_clock_parse [of accepting] obtain parsed where
    p: "urlparse accepting rfc6238_clock_uri = Inr parsed"
       "totp_params parsed = Inr (rfc6238_secret, Hash_sha1, 8, 30, 0)" by blast
  have h: "get_totp_code accepting rfc6238_clock_uri (sconst 1111111109) =
             (Inr ?r, sconst 1111111109)"
    using rfc6238_clock_result_1111111109 [where clock = "sconst 1111111109" and lib = accepting]
    by simp
  have t: "truediv (if (0::int) < 0 then 0 else shd (sconst 1111111109)) 30 =
             Inr (4971026953518012, - 27)"
    by (simp add: div_eval)
  have k: "b32decode (pad_secret rfc6238_secret) = Inr ?key"
    unfolding rfc6238_secret_def by (simp add: str_eval b32_eval)
  have m: "to_bytes8 (int_of_float (4971026953518012, - 27)) = Inr [0, 0, 0, 0, 2, 53, 35, 236]"
    by (simp add: div_eval)
  have d: "dynamic_truncate (hmac_digest Hash_sha1 ?key [0, 0, 0, 0, 2, 53, 35, 236]) =
             Inr 907081804"
    by (simp add: rfc6238_hmac_1111111109 trunc_eval)
  have s: "str_of_nat (nat (907081804 mod 10 ^ nat 8)) = str ''7081804''"
    by (simp add: str_eval str_of_nat_eval)
  have z: "replicate (nat 8 - length (str ''7081804'')) 48 = str ''0''"
    by (simp add: str_eval)
  from code_is_zero_padded [OF p h] obtain tm key msg code_int where
    c: "truediv (if (0::int) < 0 then 0 else shd (sconst 1111111109)) 30 = Inr tm"
       "b32decode (pad_secret rfc6238_secret) = Inr key"
       "to_bytes8 (int_of_float tm) = Inr msg"
       "dynamic_truncate (hmac_digest Hash_sha1 key msg) = Inr code_int"
    and r: "code ?r =
         replicate (nat 8 - length (str_of_nat (nat (code_int mod 10 ^ nat 8)))) 48 @
         str_of_nat (nat (code_int mod 10 ^ nat 8))"
       "int (length (code ?r)) = 8"
       "digits_value 0 (code ?r) = Some (code_int mod 10 ^ nat 8)"
    by blast
  from c(1) t have "tm = (4971026953518012, - 27)" by simp
  with c(3) m have "msg = [0, 0, 0, 0, 2, 53, 35, 236]" by simp
  moreover from c(2) k have "key = ?key" by simp
  ultimately have "code_int = 907081804" using c(4) d by simp
  with r s have r': "code ?r = replicate (nat 8 - length (str ''7081804'')) 48 @ str ''7081804''"
       "digits_value 0 (code ?r) = Some (907081804 mod 10 ^ nat 8)"
    by simp_all
  from p h t k m d s r' z r(2) show ?thesis by blast
qed

text \<open>
  Claim C7, as stated, fails: the error message carries the algorithm in upper case,
  not as supplied (\<^verbatim>\<open>algorithm=md5\<close> gives a message with \<^verbatim>\<open>MD5\<close> that does not contain
  \<^verbatim>\<open>md5\<close>), and a URI without secret fails with the missing-secret error before the
  algorithm is looked at.
\<close>

theorem unsupported_algorithm_counterexample:
  "fst (get_totp_code accepting md5_uri (sconst 0)) = Inl (ValueError (unsupported_message (str ''MD5''))) \<and>
   \<not> contains (unsupported_message (str ''MD5'')) (str ''md5'') \<and>
   fst (get_totp_code accepting md5_no_secret_uri (sconst 0)) =
     Inl (ValueError (str ''TOTP secret not found in URI''))"
  unfolding md5_uri_def md5_no_secret_uri_def unsupported_message_def
  by (simp add: get_eval)

text \<open>
  Claim C7, amended.  For every \<^verbatim>\<open>otpauth\<close> URI with a non-empty secret whose query
  string is read without error: when the algorithm value in upper case is none of
  \<^verbatim>\<open>SHA1\<close>, \<^verbatim>\<open>SHA256\<close>, \<^verbatim>\<open>SHA512\<close>, the validation stage (which has no HMAC in it)
  fails with the \<^verbatim>\<open>ValueError\<close> whose message contains the algorithm value in upper
  case, and \<^verbatim>\<open>get_totp_code\<close> returns this error without reading the clock.
\<close>

theorem unsupported_algorithm_error:
  assumes "urlparse lib url = Inr parsed"
    and "scheme parsed = str ''otpauth''"
    and "query_loop (parse_qsl (query parsed)) (None, str ''SHA1'', 6, 30, 0) =
           Inr (Some secret, algorithm, digits, per, counter)"
    and "secret \<noteq> []"
    and "upper algorithm \<noteq> str ''SHA1'' \<and> upper algorithm \<noteq> str ''SHA256'' \<and>
         upper algorithm \<noteq> str ''SHA512''"
  shows "totp_params parsed = Inl (ValueError (unsupported_message (upper algorithm))) \<and>
         get_totp_code lib url clock = (Inl (ValueError (unsupported_message (upper algorithm))), clock) \<and>
         contains (unsupported_message (upper algorithm)) (upper algorithm)"
proof -
  have "select_hash (upper algorithm) = None"
    using assms(5) by (simp add: select_hash_def)
  then have p: "totp_params parsed = Inl (ValueError (unsupported_message (upper algorithm)))"
    using assms(2,3,4) by (simp add: totp_params_def unsupported_message_def)
  have "contains (unsupported_message (upper algorithm)) (upper algorithm)"
    unfolding unsupported_message_def
    using contains_append [of "str ''Invalid value '' @ [34]" "upper algorithm"] by simp
  with p assms(1) show ?thesis by (simp add: get_totp_code_def)
qed

theorem unsupported_algorithm_error_witness:
  "\<exists>parsed. urlparse accepting md5_uri = Inr parsed \<and> scheme parsed = str ''otpauth'' \<and>
     query_loop (parse_qsl (query parsed)) (None, str ''SHA1'', 6, 30, 0) =
       Inr (Some rfc6238_secret, str ''md5'', 6, 30, 0) \<and>
     rfc6238_secret \<noteq> [] \<and>
     upper (str ''md5'') = str ''MD5'' \<and>
     get_totp_code accepting md5_uri (sconst 0) =
       (Inl (ValueError (unsupported_message (upper (str ''md5'')))), sconst 0)"
proof -
  have u: "upper (str ''md5'') = str ''MD5''" by (simp add: str_eval upper_eval)
  have n: "upper (str ''md5'') \<noteq> str ''SHA1'' \<and> upper (str ''md5'') \<noteq> str ''SHA256'' \<and>
         upper (str ''md5'') \<noteq> str ''SHA512''" by (simp add: str_eval upper_eval)
  have s: "rfc6238_secret \<noteq> []" by (simp add: rfc6238_secret_def str_eval)
  have "\<exists>parsed. urlparse accepting md5_uri = Inr parsed \<and> scheme parsed = str ''otpauth'' \<and>
     query_loop (parse_qsl (query parsed)) (None, str ''SHA1'', 6, 30, 0) =
       Inr (Some rfc6238_secret, str ''md5'', 6, 30, 0)"
    unfolding md5_uri_def rfc6238_secret_def by (simp add: url_eval qsl_eval num_eval)
  then obtain parsed where p: "urlparse accepting md5_uri = Inr parsed" "scheme parsed = str ''otpauth''"
     "query_loop (parse_qsl (query parsed)) (None, str ''SHA1'', 6, 30, 0) =
       Inr (Some rfc6238_secret, str ''md5'', 6, 30, 0)" by blast
  from unsupported_algorithm_error [OF p s n, of "sconst 0"] p s u show ?thesis by blast
qed

text \<open>
  Claim C8.  \<^verbatim>\<open>get_totp_code\<close> is deterministic given the time.  When the URI supplies
  a positive counter, the clock is not read (the stream of clock readings is returned
  untouched) and the result is the same under every clock; in general the result
  depends on the clock through its next reading only, and at most that one reading is
  taken.
\<close>

theorem deterministic_given_time:
  "(urlparse lib url = Inr parsed \<and> totp_params parsed = Inr (secret, h, digits, per, counter) \<and>
      0 < counter \<longrightarrow>
      get_totp_code lib url clock = (totp_generate counter secret h digits per, clock) \<and>
      fst (get_totp_code lib url clock') = fst (get_totp_code lib url clock)) \<and>
   (shd clock' = shd clock \<longrightarrow> fst (get_totp_code lib url clock') = fst (get_totp_code lib url clock)) \<and>
   (snd (get_totp_code lib url clock) = clock \<or> snd (get_totp_code lib url clock) = stl clock)"
  by (auto simp: get_totp_code_def split: sum.splits prod.splits)

theorem deterministic_given_time_witness:
  "(\<exists>parsed. urlparse accepting rfc6238_counter_uri = Inr parsed \<and>
      totp_params parsed = Inr (rfc6238_secret, Hash_sha1, 8, 30, 59)) \<and> (0::int) < 59 \<and>
   get_totp_code accepting rfc6238_counter_uri (sconst 0) =
     (totp_generate 59 rfc6238_secret Hash_sha1 8 30, sconst 0) \<and>
   fst (get_totp_code accepting rfc6238_counter_uri (sconst 1)) =
     fst (get_totp_code accepting rfc6238_counter_uri (sconst 0)) \<and>
   shd (59 ## sconst 1) = shd (59 ## sconst (0::int)) \<and>
   fst (get_totp_code accepting rfc6238_clock_uri (59 ## sconst 1)) =
     fst (get_totp_code accepting rfc6238_clock_uri (59 ## sconst 0))"
proof -
  from rfc6238_counter_parse [of accepting] obtain parsed where
    p: "urlparse accepting rfc6238_counter_uri = Inr parsed \<and>
        totp_params parsed = Inr (rfc6238_secret, Hash_sha1, 8, 30, 59) \<and> (0::int) < 59"
    by auto
  have s: "shd (59 ## sconst 1) = shd (59 ## sconst (0::int))" by simp
  from deterministic_given_time
         [where lib = accepting and url = rfc6238_counter_uri and parsed = parsed
            and secret = rfc6238_secret and h = Hash_sha1 and digits = 8 and per = 30
            and counter = 59 and clock = "sconst 0" and clock' = "sconst 1"]
       deterministic_given_time
         [where lib = accepting and url = rfc6238_clock_uri and clock' = "59 ## sconst 1"
            and clock = "59 ## sconst 0"]
       p s
  show ?thesis by blast
qed

text \<open>
  Claim C9.  The dynamic truncation is always in bounds: every digest of SHA-1, SHA-256
  or SHA-512 (in particular every HMAC digest, which is such a digest) has at least 20
  bytes, the offset taken from its last byte is at most 15, the slice of four bytes at
  the offset is complete, and the truncation returns an integer \<open>n\<close> with
  \<open>0 \<le> n < 2^31\<close> without raising.
\<close>

theorem truncation_in_bounds:
  "20 \<le> length (hash_digest h m) \<and>
   unat (last (hash_digest h m) AND 0x0F) \<le> 15 \<and>
   length (take 4 (drop (unat (last (hash_digest h m) AND 0x0F)) (hash_digest h m))) = 4 \<and>
   (\<exists>n. dynamic_truncate (hash_digest h m) = Inr n \<and> 0 \<le> n \<and> n < 2 ^ 31) \<and>
   (\<exists>m'. hmac_digest h key msg = hash_digest h m')"
proof -
  have len: "20 \<le> length (hash_digest h m)"
    using length_hash_digest [of h m] by (cases h) simp_all
  show ?thesis
    using len dynamic_truncate_in_bounds [OF len] unat_and_15_le hmac_digest_is_hash
    by blast
qed

text \<open>
  Claim C10.  The claim is that of several occurrences of a parameter the last one that
  passes the coercion rule decides, earlier ones having no effect.  An earlier
  occurrence whose value is numeric without being decimal makes the loop raise
  (the defect of claim C3): \<^verbatim>\<open>digits=\<close>U+00B2\<^verbatim>\<open>&digits=8\<close> fails although the last
  occurrence is valid.
\<close>

theorem earlier_occurrence_raises:
  "fst (get_totp_code lib repeated_digits_uri clock) =
     Inl (ValueError (str ''invalid literal for int() with base 10: '' @ [39, 178, 39]))"
  unfolding repeated_digits_uri_def
  by (simp add: get_eval)

end
